theory Spec2Isabelle
  imports Main "HOL-Library.Sublist" "HOL-Library.AList"
begin

section \<open>JavaScript values used by the logging module\<close>

text \<open>
  The model covers \<^verbatim>\<open>src/app/logger.js\<close>. A JavaScript string is a \<open>string\<close>: one
  \<open>char\<close> stands for one code unit (code units above 255 are outside the model, no
  property below depends on them). \<open>JNum\<close> holds the integers the callers pass (ids,
  counts), within the range in which a double is exact. An object is the list of its own
  enumerable string-keyed properties in the order in which JavaScript enumerates them:
  array indices first, ascending, then the other keys in insertion order. Objects are
  plain data: no object has a property of its own named \<^verbatim>\<open>toString\<close> or
  \<^verbatim>\<open>valueOf\<close>, so every conversion to a string or a number goes through the
  inherited methods. An \<^verbatim>\<open>Error\<close> instance carries \<^verbatim>\<open>name\<close>,
  \<^verbatim>\<open>message\<close> and \<^verbatim>\<open>stack\<close>; none of the three is enumerable.
\<close>

datatype jsval =
    JUndefined
  | JNull
  | JBool bool
  | JNum int
  | JStr string
  | JObj "(string \<times> jsval) list"
  | JError string string "string option"

type_synonym obj = "(string \<times> jsval) list"

datatype js_error = TypeError | ReferenceError | TransportError

subsection \<open>Strings\<close>

text \<open>\<^verbatim>\<open>String.prototype.includes\<close> and \<^verbatim>\<open>startsWith\<close>.\<close>

fun str_includes :: "string \<Rightarrow> string \<Rightarrow> bool" where
  "str_includes [] needle = (needle = [])"
| "str_includes (c # cs) needle = (prefix needle (c # cs) \<or> str_includes cs needle)"

definition startsWith :: "string \<Rightarrow> string \<Rightarrow> bool" where
  "startsWith s p = prefix p s"

text \<open>Decimal rendering of a number, as a template literal prints it.\<close>

definition digit_char :: "nat \<Rightarrow> char" where
  "digit_char d = char_of (48 + d)"

fun string_of_nat :: "nat \<Rightarrow> string" where
  "string_of_nat n =
     (if n < 10 then [digit_char n] else string_of_nat (n div 10) @ [digit_char (n mod 10)])"

declare string_of_nat.simps [simp del]

definition is_digit :: "char \<Rightarrow> bool" where
  "is_digit c = (48 \<le> (of_char c :: nat) \<and> (of_char c :: nat) \<le> 57)"

definition int_of_digits :: "string \<Rightarrow> int" where
  "int_of_digits ds = foldl (\<lambda>n c. 10 * n + (of_char c - 48)) 0 ds"

text \<open>Decimal digits of an integer that is not negative, of any size.\<close>

function decimal :: "int \<Rightarrow> string" where
  "decimal n =
     (if n < 10 then [digit_char (nat n)] else decimal (n div 10) @ [digit_char (nat (n mod 10))])"
  by pat_completeness auto
termination
  by (relation "measure nat") auto

declare decimal.simps [simp del]

text \<open>
  A number that is not negative, as a line number is: an integer that a double holds
  exactly, or \<^verbatim>\<open>Infinity\<close>. \<open>round_to_double\<close> is the double nearest to an
  integer that is not negative (ties to the even significand of 53 bits); beyond the
  largest double it is \<^verbatim>\<open>Infinity\<close>.
\<close>

datatype jsnumber = Finite int | PosInfinity

function bit_length :: "int \<Rightarrow> nat" where
  "bit_length n = (if n \<le> 0 then 0 else Suc (bit_length (n div 2)))"
  by pat_completeness auto
termination
  by (relation "measure nat") auto

declare bit_length.simps [simp del]

definition round_to_double :: "int \<Rightarrow> jsnumber" where
  "round_to_double n =
     (if n < 2 ^ 53 then Finite n
      else
        let sh = bit_length n - 53;
            q = n div 2 ^ sh;
            r = n mod 2 ^ sh;
            q' = (if 2 ^ (sh - 1) < r \<or> (r = 2 ^ (sh - 1) \<and> odd q) then q + 1 else q);
            x = q' * 2 ^ sh
        in if x < 2 ^ 1024 then Finite x else PosInfinity)"

text \<open>
  \<^verbatim>\<open>Number.prototype.toString\<close> on such a number. Below \<open>2 ^ 53\<close> it prints
  the decimal digits. Above, it prints the decimal number with the fewest significant
  digits that still rounds to the double (the closest one, if there are two), padded
  with zeros up to 21 digits and in exponent notation beyond.
\<close>

definition pick_digits :: "int \<Rightarrow> int \<Rightarrow> int option" where
  "pick_digits x p =
     (let lo = (x div p) * p;
          hi = lo + p;
          ok_lo = (round_to_double lo = Finite x);
          ok_hi = (round_to_double hi = Finite x)
      in if ok_lo \<and> ok_hi
         then Some (if x - lo < hi - x then lo
                    else if hi - x < x - lo then hi
                    else if even (lo div p) then lo else hi)
         else if ok_lo then Some lo
         else if ok_hi then Some hi
         else None)"

fun shortest_from :: "int \<Rightarrow> nat \<Rightarrow> int" where
  "shortest_from x 0 = x"
| "shortest_from x (Suc j) =
     (case pick_digits x (10 ^ Suc j) of Some v \<Rightarrow> v | None \<Rightarrow> shortest_from x j)"

definition exponent_form :: "string \<Rightarrow> string" where
  "exponent_form digits =
     (let significant = rev (dropWhile (\<lambda>c. c = CHR ''0'') (rev digits))
      in (case significant of
            [] \<Rightarrow> digits
          | c # cs \<Rightarrow>
              c # (if cs = [] then [] else CHR ''.'' # cs) @ ''e+'' @
              string_of_nat (length digits - 1)))"

definition number_string :: "jsnumber \<Rightarrow> string" where
  "number_string x =
     (case x of
        PosInfinity \<Rightarrow> ''Infinity''
      | Finite n \<Rightarrow>
          if n < 2 ^ 53 then decimal n
          else
            let digits = decimal (shortest_from n (length (decimal n) - 1))
            in if length digits \<le> 21 then digits else exponent_form digits)"

definition string_of_int :: "int \<Rightarrow> string" where
  "string_of_int i =
     (if i < 0 then CHR ''-'' # number_string (Finite (- i)) else number_string (Finite i))"

text \<open>
  White space as \<^verbatim>\<open>String.prototype.trim\<close> and the regular-expression class
  \<^verbatim>\<open>\s\<close> see it, among the code units of the model: TAB, LF, VT, FF, CR, SPACE, NBSP.
\<close>

definition is_space :: "char \<Rightarrow> bool" where
  "is_space c = (of_char c \<in> {9, 10, 11, 12, 13, 32, 160 :: nat})"

definition trim :: "string \<Rightarrow> string" where
  "trim s = rev (dropWhile is_space (rev (dropWhile is_space s)))"

text \<open>What the spec calls trimming trailing white space (used for comparison only).\<close>

definition trimEnd :: "string \<Rightarrow> string" where
  "trimEnd s = rev (dropWhile is_space (rev s))"

subsection \<open>Objects\<close>

text \<open>
  Own enumerable properties, as object spread copies them: those of an object, the
  indexed characters of a string, nothing for other primitives (including
  \<^verbatim>\<open>null\<close> and \<^verbatim>\<open>undefined\<close>) and nothing for an \<^verbatim>\<open>Error\<close>.
\<close>

fun indexed_chars :: "nat \<Rightarrow> string \<Rightarrow> obj" where
  "indexed_chars i [] = []"
| "indexed_chars i (c # cs) = (string_of_nat i, JStr [c]) # indexed_chars (Suc i) cs"

fun own_props :: "jsval \<Rightarrow> obj" where
  "own_props (JObj kvs) = kvs"
| "own_props (JStr s) = indexed_chars 0 s"
| "own_props _ = []"

text \<open>
  Writing a property into an object. A key already present keeps its position and
  takes the new value. A new key that is an array index (the canonical decimal
  spelling of a number below \<open>2 ^ 32 - 1\<close>) goes to its place among the indices at
  the front; any other new key goes to the end.
\<close>

definition is_index_key :: "string \<Rightarrow> bool" where
  "is_index_key k =
     (k \<noteq> [] \<and> list_all is_digit k \<and>
      (if hd k = CHR ''0'' then k = ''0'' else True) \<and>
      int_of_digits k < 4294967295)"

fun insert_index :: "int \<Rightarrow> string \<Rightarrow> jsval \<Rightarrow> obj \<Rightarrow> obj" where
  "insert_index i k v [] = [(k, v)]"
| "insert_index i k v (p # ps) =
     (if is_index_key (fst p) \<and> int_of_digits (fst p) < i
      then p # insert_index i k v ps
      else (k, v) # p # ps)"

definition put_prop :: "string \<Rightarrow> jsval \<Rightarrow> obj \<Rightarrow> obj" where
  "put_prop k v ob =
     (if map_of ob k = None \<and> is_index_key k
      then insert_index (int_of_digits k) k v ob
      else AList.update k v ob)"

text \<open>
  \<^verbatim>\<open>{...target, ...src}\<close>: every property of \<open>src\<close> is written into the object
  under construction.
\<close>

definition spread :: "obj \<Rightarrow> jsval \<Rightarrow> obj" where
  "spread target src = fold (\<lambda>(k, v). put_prop k v) (own_props src) target"

text \<open>
  Property read \<^verbatim>\<open>v.k\<close> for the keys the logger reads. Reading a property of
  \<^verbatim>\<open>null\<close> or \<^verbatim>\<open>undefined\<close> throws.
\<close>

fun get_prop :: "jsval \<Rightarrow> string \<Rightarrow> js_error + jsval" where
  "get_prop JUndefined k = Inl TypeError"
| "get_prop JNull k = Inl TypeError"
| "get_prop (JObj kvs) k = Inr (case map_of kvs k of Some v \<Rightarrow> v | None \<Rightarrow> JUndefined)"
| "get_prop (JStr s) k = Inr (if k = ''length'' then JNum (int (length s)) else JUndefined)"
| "get_prop (JError n m st) k =
     Inr (if k = ''name'' then JStr n
          else if k = ''message'' then JStr m
          else if k = ''stack'' then (case st of Some t \<Rightarrow> JStr t | None \<Rightarrow> JUndefined)
          else JUndefined)"
| "get_prop _ k = Inr JUndefined"

text \<open>Truthiness, and the default value of a parameter declared \<^verbatim>\<open>p = {}\<close>.\<close>

fun truthy :: "jsval \<Rightarrow> bool" where
  "truthy JUndefined = False"
| "truthy JNull = False"
| "truthy (JBool b) = b"
| "truthy (JNum n) = (n \<noteq> 0)"
| "truthy (JStr s) = (s \<noteq> [])"
| "truthy _ = True"

fun default_obj :: "jsval \<Rightarrow> jsval" where
  "default_obj JUndefined = JObj []"
| "default_obj v = v"

text \<open>\<^verbatim>\<open>String(v)\<close>, as a template literal converts \<open>v\<close>.\<close>

fun to_string :: "jsval \<Rightarrow> string" where
  "to_string JUndefined = ''undefined''"
| "to_string JNull = ''null''"
| "to_string (JBool b) = (if b then ''true'' else ''false'')"
| "to_string (JNum n) = string_of_int n"
| "to_string (JStr s) = s"
| "to_string (JObj kvs) = ''[object Object]''"
| "to_string (JError n m st) = (if m = [] then n else if n = [] then m else n @ '': '' @ m)"

text \<open>The method call \<^verbatim>\<open>v.toString()\<close>: it throws on \<^verbatim>\<open>null\<close> and \<^verbatim>\<open>undefined\<close>.\<close>

fun toString_call :: "jsval \<Rightarrow> js_error + string" where
  "toString_call JUndefined = Inl TypeError"
| "toString_call JNull = Inl TypeError"
| "toString_call v = Inr (to_string v)"

section \<open>Environment and state\<close>

text \<open>
  The Node.js \<^verbatim>\<open>path\<close> module is not part of the repository: the model takes
  \<^verbatim>\<open>path.relative(process.cwd(), p)\<close> and \<^verbatim>\<open>path.isAbsolute(p)\<close> as
  parameters, together with the logger's own \<^verbatim>\<open>__filename\<close> and the exception, if
  any, that a call of the winston logger throws.
\<close>

record env =
  relative :: "string \<Rightarrow> string"
  isAbsolute :: "string \<Rightarrow> bool"
  logger_filename :: string
  transport_fault :: "js_error option"

text \<open>
  A V8 call site: \<^verbatim>\<open>getFileName()\<close> and \<^verbatim>\<open>getLineNumber()\<close> may give
  \<^verbatim>\<open>null\<close>; a line number is a 32-bit integer.
\<close>

record frame =
  fileName :: "string option"
  lineNumber :: "nat option"

text \<open>
  The global hook \<^verbatim>\<open>Error.prepareStackTrace\<close>: unset, a function installed by other
  code (identified by a number), or the resolver's own function that returns the raw
  frames.
\<close>

datatype hook = NoHook | HostHook nat | RawFramesHook

text \<open>
  The mutable world: the hook, the calls received by the winston logger (level, message,
  metadata object) and the first argument of every \<^verbatim>\<open>console.error\<close> and
  \<^verbatim>\<open>console.log\<close> call.
\<close>

record world =
  prepareStackTrace :: hook
  emitted :: "(jsval \<times> jsval \<times> obj) list"
  console :: "string list"

record location =
  loc_file :: string
  loc_line :: jsnumber

definition sentinel :: location where
  "sentinel = \<lparr>loc_file = ''unknown'', loc_line = Finite 0\<rparr>"

section \<open>The caller resolver \<^verbatim>\<open>getCallerInfo\<close>\<close>

definition shouldSkip :: "env \<Rightarrow> string \<Rightarrow> string \<Rightarrow> bool" where
  "shouldSkip e filename relativePath =
     (str_includes relativePath ''node_modules'' \<or>
      str_includes relativePath ''logger.js'' \<or>
      str_includes filename ''winston'' \<or>
      str_includes filename ''daily-rotate-file'' \<or>
      startsWith relativePath ''..'' \<or>
      filename = logger_filename e \<or>
      relativePath = [] \<or>
      relativePath = ''.'')"

text \<open>
  The \<^verbatim>\<open>for\<close> loop of the resolver over the frames from index \<open>i\<close> on; the result is
  the pair \<^verbatim>\<open>(callerfile, callerline)\<close>, initially \<^verbatim>\<open>('unknown', 0)\<close>. A
  \<^verbatim>\<open>null\<close> line number is kept as \<open>None\<close>.
\<close>

fun scan_frames :: "env \<Rightarrow> frame list \<Rightarrow> string \<times> nat option" where
  "scan_frames e [] = (''unknown'', Some 0)"
| "scan_frames e (caller # rest) =
     (case fileName caller of
        None \<Rightarrow> scan_frames e rest
      | Some filename \<Rightarrow>
          if filename = [] then scan_frames e rest
          else
            let relativePath = relative e filename in
            if \<not> shouldSkip e filename relativePath \<and> relativePath \<noteq> []
            then (filename, lineNumber caller)
            else scan_frames e rest)"

text \<open>
  The body of the \<^verbatim>\<open>try\<close> block. \<open>capture\<close> is what reading \<^verbatim>\<open>err.stack\<close> gives
  under the raw-frames hook: the live frames, innermost first, or an exception. With a
  negative \<open>skipFrames\<close> the first iteration reads \<^verbatim>\<open>stack[i]\<close>, which is
  \<^verbatim>\<open>undefined\<close>, and the method call on it throws.
\<close>

definition try_body :: "env \<Rightarrow> js_error + frame list \<Rightarrow> int \<Rightarrow> js_error + string \<times> nat option" where
  "try_body e capture skipFrames =
     (case capture of
        Inl err \<Rightarrow> Inl err
      | Inr stack \<Rightarrow>
          if skipFrames < 0 then Inl TypeError
          else Inr (scan_frames e (drop (nat skipFrames) stack)))"

definition getCallerInfo :: "env \<Rightarrow> world \<Rightarrow> js_error + frame list \<Rightarrow> int \<Rightarrow> location \<times> world" where
  "getCallerInfo e w capture skipFrames =
     (let originalFunc = prepareStackTrace w;
          w1 = w\<lparr>prepareStackTrace := RawFramesHook\<rparr>;
          (callerfile, callerline) =
             (case try_body e capture skipFrames of
                Inl err \<Rightarrow> (''unknown'', Some 0)
              | Inr r \<Rightarrow> r);
          w2 = w1\<lparr>prepareStackTrace := originalFunc\<rparr>;
          relativePath = (if callerfile \<noteq> ''unknown'' then relative e callerfile else ''unknown'')
      in (\<lparr>loc_file = relativePath,
           loc_line = (case callerline of Some n \<Rightarrow> Finite (int n) | None \<Rightarrow> Finite 0)\<rparr>, w2))"

text \<open>The string \<^verbatim>\<open>`${caller.file}:${caller.line}`\<close>.\<close>

definition caller_string :: "location \<Rightarrow> string" where
  "caller_string c = loc_file c @ '':'' @ number_string (loc_line c)"


subsection \<open>A POSIX instance of the environment\<close>

text \<open>
  \<^verbatim>\<open>String.prototype.split\<close> with a one-character separator; it also cuts a stack
  text into lines.
\<close>

fun split_on :: "char \<Rightarrow> string \<Rightarrow> string list" where
  "split_on d [] = [[]]"
| "split_on d (c # cs) =
     (if c = d then [] # split_on d cs
      else (case split_on d cs of [] \<Rightarrow> [[c]] | w # ws \<Rightarrow> (c # w) # ws))"

text \<open>
  Node's documented behaviour of \<^verbatim>\<open>path.relative(from, to)\<close> on POSIX, with
  \<open>from\<close> the working directory \<open>cwd\<close> (an absolute path): both paths are resolved
  against \<open>cwd\<close> and normalised (empty and \<^verbatim>\<open>.\<close> segments dropped, \<^verbatim>\<open>..\<close>
  removing the segment before it), the common leading segments are removed, and every
  segment left of \<open>from\<close> becomes \<^verbatim>\<open>..\<close>. It serves the concrete inputs below; the
  general theorems hold for every environment.
\<close>

fun norm_segs :: "string list \<Rightarrow> string list \<Rightarrow> string list" where
  "norm_segs acc [] = rev acc"
| "norm_segs acc (s # ss) =
     (if s = [] \<or> s = ''.'' then norm_segs acc ss
      else if s = ''..'' then norm_segs (tl acc) ss
      else norm_segs (s # acc) ss)"

definition posix_isAbsolute :: "string \<Rightarrow> bool" where
  "posix_isAbsolute p = (case p of [] \<Rightarrow> False | c # cs \<Rightarrow> c = CHR ''/'')"

definition posix_resolve :: "string \<Rightarrow> string \<Rightarrow> string list" where
  "posix_resolve cwd p =
     norm_segs [] (if posix_isAbsolute p then split_on CHR ''/'' p
                   else split_on CHR ''/'' cwd @ split_on CHR ''/'' p)"

fun strip_common :: "string list \<Rightarrow> string list \<Rightarrow> string list \<times> string list" where
  "strip_common (a # as) (b # bs) = (if a = b then strip_common as bs else (a # as, b # bs))"
| "strip_common as bs = (as, bs)"

fun join :: "string \<Rightarrow> string list \<Rightarrow> string" where
  "join sep [] = []"
| "join sep [x] = x"
| "join sep (x # y # ys) = x @ sep @ join sep (y # ys)"

definition posix_relative :: "string \<Rightarrow> string \<Rightarrow> string" where
  "posix_relative cwd p =
     (let (f, t) = strip_common (posix_resolve cwd cwd) (posix_resolve cwd p)
      in join ''/'' (map (\<lambda>s. ''..'') f @ t))"

definition posix_env :: "string \<Rightarrow> env" where
  "posix_env cwd =
     \<lparr>relative = posix_relative cwd, isAbsolute = posix_isAbsolute,
      logger_filename = cwd @ ''/app/logger.js'', transport_fault = None\<rparr>"

subsection \<open>What the resolver is to select\<close>

text \<open>
  The four conditions as the specification words them: a file path is present, the
  relative path is not in the dependency directory, the file is not the logging module,
  and the relative path does not walk out of the project root.
\<close>

definition spec_qualifies :: "env \<Rightarrow> frame \<Rightarrow> bool" where
  "spec_qualifies e f =
     (case fileName f of
        None \<Rightarrow> False
      | Some filename \<Rightarrow>
          filename \<noteq> [] \<and>
          \<not> str_includes (relative e filename) ''node_modules'' \<and>
          filename \<noteq> logger_filename e \<and>
          \<not> startsWith (relative e filename) ''..'')"

text \<open>
  The tests of \<open>shouldSkip\<close> that reach further than the four conditions: the
  substring \<^verbatim>\<open>logger.js\<close> anywhere in the relative path, the substrings
  \<^verbatim>\<open>winston\<close> and \<^verbatim>\<open>daily-rotate-file\<close> anywhere in the file name, and a
  relative path that is empty or \<^verbatim>\<open>.\<close>.
\<close>

definition over_matched :: "env \<Rightarrow> frame \<Rightarrow> bool" where
  "over_matched e f =
     (case fileName f of
        None \<Rightarrow> False
      | Some filename \<Rightarrow>
          str_includes (relative e filename) ''logger.js'' \<or>
          str_includes filename ''winston'' \<or>
          str_includes filename ''daily-rotate-file'' \<or>
          relative e filename = [] \<or>
          relative e filename = ''.'')"

text \<open>The location of a frame: its path relative to the project root, and its line.\<close>

definition frame_location :: "env \<Rightarrow> frame \<Rightarrow> location" where
  "frame_location e f =
     \<lparr>loc_file = (case fileName f of Some filename \<Rightarrow> relative e filename | None \<Rightarrow> ''unknown''),
      loc_line = (case lineNumber f of Some n \<Rightarrow> Finite (int n) | None \<Rightarrow> Finite 0)\<rparr>"

section \<open>The error-location extractor \<^verbatim>\<open>getErrorLocation\<close>\<close>

subsection \<open>Regular expressions\<close>

text \<open>
  The fragment of JavaScript regular expressions that the logger's literals use:
  literal text, \<^verbatim>\<open>+\<close> (greedy) and \<^verbatim>\<open>+?\<close> (lazy) over a character class, an
  optional group \<^verbatim>\<open>(?:...)?\<close>, and a numbered capture group. A pattern is a sequence
  of such items.
\<close>

datatype cls = AnyChar | NotParen | Digit | NotSepSpace

fun in_cls :: "cls \<Rightarrow> char \<Rightarrow> bool" where
  "in_cls AnyChar c = (c \<noteq> CHR 0x0A \<and> c \<noteq> CHR 0x0D)"
| "in_cls NotParen c = (c \<noteq> CHR ''('' \<and> c \<noteq> CHR '')'')"
| "in_cls Digit c = (48 \<le> (of_char c :: nat) \<and> (of_char c :: nat) \<le> 57)"
| "in_cls NotSepSpace c = (c \<noteq> CHR 0x5C \<and> c \<noteq> CHR ''/'' \<and> \<not> is_space c)"

datatype rx = Lit string | Plus bool cls | Opt "rx list" | Grp nat "rx list"

type_synonym caps = "(nat \<times> string) list"

text \<open>
  The inputs left after one or more characters of the class, shortest match first. A
  lazy quantifier tries them in this order, a greedy one in the reverse order.
\<close>

fun plus_rests :: "cls \<Rightarrow> string \<Rightarrow> string list" where
  "plus_rests k [] = []"
| "plus_rests k (x # xs) = (if in_cls k x then xs # plus_rests k xs else [])"

text \<open>
  Backtracking as a list of successes: \<open>matches p s c\<close> lists, in the order in which
  the backtracking matcher finds them, the inputs left and the captures after matching
  the pattern \<open>p\<close> at the start of \<open>s\<close>. An optional group is tried before it is
  skipped; a capture group records the text it consumed.
\<close>

fun matches :: "rx list \<Rightarrow> string \<Rightarrow> caps \<Rightarrow> (string \<times> caps) list" where
  "matches [] s c = [(s, c)]"
| "matches (Lit l # p) s c = (if prefix l s then matches p (drop (length l) s) c else [])"
| "matches (Plus greedy k # p) s c =
     concat (map (\<lambda>s'. matches p s' c)
                 (if greedy then rev (plus_rests k s) else plus_rests k s))"
| "matches (Opt inner # p) s c =
     concat (map (\<lambda>(s', c'). matches p s' c') (matches inner s c)) @ matches p s c"
| "matches (Grp n inner # p) s c =
     concat (map (\<lambda>(s', c'). matches p s' ((n, take (length s - length s') s) # c'))
                 (matches inner s c))"

text \<open>
  \<^verbatim>\<open>s.match(re)\<close> for a pattern without the global flag: the leftmost start position
  that has a match, and there the first match in backtracking order. The result is the
  text before the match, the text after it, and the captures.
\<close>

fun search_from :: "rx list \<Rightarrow> string \<Rightarrow> string \<Rightarrow> (string \<times> string \<times> caps) option" where
  "search_from p pre [] =
     (case matches p [] [] of [] \<Rightarrow> None | (s', c) # ms \<Rightarrow> Some (pre, s', c))"
| "search_from p pre (x # xs) =
     (case matches p (x # xs) [] of
        [] \<Rightarrow> search_from p (pre @ [x]) xs
      | (s', c) # ms \<Rightarrow> Some (pre, s', c))"

definition search :: "rx list \<Rightarrow> string \<Rightarrow> (string \<times> string \<times> caps) option" where
  "search p s = search_from p [] s"

text \<open>The two patterns of \<^verbatim>\<open>getErrorLocation\<close>, in the order it tries them.\<close>

definition frame_pattern :: "rx list" where
  "frame_pattern =
     [Opt [Lit ''at '', Plus False AnyChar, Lit '' (''],
      Grp 1 [Plus True NotParen, Lit ''.js''],
      Lit '':'',
      Grp 2 [Plus True Digit],
      Opt [Lit '':'', Plus True Digit],
      Opt [Lit '')'']]"

definition bare_pattern :: "rx list" where
  "bare_pattern = [Grp 1 [Plus True NotSepSpace, Lit ''.js''], Lit '':'', Grp 2 [Plus True Digit]]"

text \<open>
  \<^verbatim>\<open>line.match(frame) || line.match(bare)\<close>, reduced to the two captures that the
  caller reads: \<^verbatim>\<open>match[1]\<close> and \<^verbatim>\<open>match[2]\<close>.
\<close>

definition match_line :: "string \<Rightarrow> (string \<times> string) option" where
  "match_line l =
     (case (case search frame_pattern l of Some m \<Rightarrow> Some m | None \<Rightarrow> search bare_pattern l) of
        None \<Rightarrow> None
      | Some (pre, post, c) \<Rightarrow>
          (case (map_of c 1, map_of c 2) of
             (Some fullPath, Some digits) \<Rightarrow> Some (fullPath, digits)
           | _ \<Rightarrow> None))"

text \<open>
  \<^verbatim>\<open>parseInt\<close> on a run of decimal digits: the double nearest to the number they
  spell.
\<close>

definition parseInt :: "string \<Rightarrow> jsnumber" where
  "parseInt ds = round_to_double (int_of_digits ds)"

subsection \<open>The extractor\<close>

text \<open>The loop over the lines of the stack; falling out of it gives the sentinel.\<close>

fun scan_lines :: "env \<Rightarrow> string list \<Rightarrow> location" where
  "scan_lines e [] = sentinel"
| "scan_lines e (l # ls) =
     (case match_line l of
        None \<Rightarrow> scan_lines e ls
      | Some (fullPath, digits) \<Rightarrow>
          if \<not> str_includes fullPath ''node_modules''
          then
            let relativePath = (if isAbsolute e fullPath then relative e fullPath else fullPath)
            in \<lparr>loc_file = map (\<lambda>c. if c = CHR 0x5C then CHR ''/'' else c) relativePath,
                loc_line = parseInt digits\<rparr>
          else scan_lines e ls)"

text \<open>
  The extractor on stack text. It has no access to the live frames that
  \<open>getCallerInfo\<close> receives.
\<close>

definition extract_location :: "env \<Rightarrow> string \<Rightarrow> location" where
  "extract_location e stackText = scan_lines e (split_on CHR 0x0A stackText)"

text \<open>
  \<^verbatim>\<open>getErrorLocation(error)\<close>: a falsy argument or a falsy \<^verbatim>\<open>stack\<close> gives the
  sentinel; a \<^verbatim>\<open>stack\<close> that is not a string has no \<^verbatim>\<open>split\<close> method, the call
  throws inside the \<^verbatim>\<open>try\<close> block and the sentinel is returned as well.
\<close>

definition getErrorLocation :: "env \<Rightarrow> jsval \<Rightarrow> location" where
  "getErrorLocation e error =
     (if \<not> truthy error then sentinel
      else (case get_prop error ''stack'' of
              Inr (JStr stackText) \<Rightarrow> if stackText = [] then sentinel else extract_location e stackText
            | _ \<Rightarrow> sentinel))"

section \<open>The public logging operations\<close>

text \<open>
  A call of the winston logger (\<^verbatim>\<open>logger.log\<close>, \<^verbatim>\<open>logger.info\<close>, ...): winston is
  not part of the repository; the call either records (level, message, metadata) or
  throws the fault that the environment names.
\<close>

definition logger_log :: "env \<Rightarrow> world \<Rightarrow> jsval \<Rightarrow> jsval \<Rightarrow> obj \<Rightarrow> (js_error + unit) \<times> world" where
  "logger_log e w level message meta =
     (case transport_fault e of
        Some err \<Rightarrow> (Inl err, w)
      | None \<Rightarrow> (Inr (), w\<lparr>emitted := emitted w @ [(level, message, meta)]\<rparr>))"

text \<open>A property \<^verbatim>\<open>k: v\<close> of an object literal, written into the object so far.\<close>

definition set_prop :: "string \<Rightarrow> jsval \<Rightarrow> obj \<Rightarrow> obj" where
  "set_prop k v ob = put_prop k v ob"

text \<open>\<^verbatim>\<open>logAction(action, details = {}, level = 'info')\<close>, the only operation with a \<^verbatim>\<open>try\<close>.\<close>

definition logAction ::
  "env \<Rightarrow> world \<Rightarrow> js_error + frame list \<Rightarrow> jsval \<Rightarrow> jsval \<Rightarrow> jsval \<Rightarrow> (js_error + unit) \<times> world" where
  "logAction e w capture action details level =
     (let details = default_obj details;
          level = (case level of JUndefined \<Rightarrow> JStr ''info'' | v \<Rightarrow> v);
          (caller, w1) = getCallerInfo e w capture 2
      in case logger_log e w1 level action
                (set_prop ''caller'' (JStr (caller_string caller)) (spread [] details)) of
           (Inr u, w2) \<Rightarrow> (Inr (), w2)
         | (Inl err, w2) \<Rightarrow>
             (Inr (), w2\<lparr>console := console w2 @
                 [''Error logging action '' @ to_string action @ '':'',
                  ''Fallback log - '' @ to_string action @ '':'']\<rparr>))"

text \<open>
  The comparison \<^verbatim>\<open>v > 500\<close>. The value is converted to a number first: a
  string by the grammar of numeric string literals (white space trimmed, the empty
  string is 0, a sign, \<^verbatim>\<open>Infinity\<close>, decimal digits with fraction and exponent,
  or an unsigned literal in base 16, 8 or 2), everything else that is not a number to
  0, 1 or \<^verbatim>\<open>NaN\<close>. A decimal literal is the pair of its digits and its power of
  ten; as a double it exceeds 500 exactly when it exceeds \<open>500 + 2 ^ - 45\<close>,
  the midpoint between 500 and the next double.
\<close>

definition exponent_part :: "string \<Rightarrow> int option" where
  "exponent_part r =
     (case r of
        [] \<Rightarrow> Some 0
      | c # cs \<Rightarrow>
          if c = CHR ''e'' \<or> c = CHR ''E''
          then
            (let negative = (case cs of [] \<Rightarrow> False | s # ds \<Rightarrow> s = CHR ''-'');
                 signed = (case cs of [] \<Rightarrow> False | s # ds \<Rightarrow> s = CHR ''-'' \<or> s = CHR ''+'');
                 ds = (if signed then tl cs else cs)
             in if ds \<noteq> [] \<and> list_all is_digit ds
                then Some (if negative then - int_of_digits ds else int_of_digits ds)
                else None)
          else None)"

definition decimal_literal :: "string \<Rightarrow> (int \<times> int) option" where
  "decimal_literal s =
     (let whole = takeWhile is_digit s;
          r1 = dropWhile is_digit s;
          dotted = (case r1 of [] \<Rightarrow> False | c # cs \<Rightarrow> c = CHR ''.'');
          fraction = (if dotted then takeWhile is_digit (tl r1) else []);
          r2 = (if dotted then dropWhile is_digit (tl r1) else r1)
      in if whole = [] \<and> fraction = [] then None
         else (case exponent_part r2 of
                 None \<Rightarrow> None
               | Some ex \<Rightarrow> Some (int_of_digits (whole @ fraction), ex - int (length fraction))))"

definition decimal_exceeds_500 :: "int \<Rightarrow> int \<Rightarrow> bool" where
  "decimal_exceeds_500 m ex =
     (if 0 \<le> ex then 500 * 2 ^ 45 + 1 < m * 10 ^ nat ex * 2 ^ 45
      else (500 * 2 ^ 45 + 1) * 10 ^ nat (- ex) < m * 2 ^ 45)"

definition radix_digit :: "char \<Rightarrow> int" where
  "radix_digit c =
     (let n = (of_char c :: int)
      in if 48 \<le> n \<and> n \<le> 57 then n - 48
         else if 97 \<le> n \<and> n \<le> 102 then n - 87
         else if 65 \<le> n \<and> n \<le> 70 then n - 55
         else 16)"

definition radix_exceeds_500 :: "int \<Rightarrow> string \<Rightarrow> bool" where
  "radix_exceeds_500 b ds =
     (ds \<noteq> [] \<and> list_all (\<lambda>c. radix_digit c < b) ds \<and>
      500 < foldl (\<lambda>n c. b * n + radix_digit c) 0 ds)"

definition string_exceeds_500 :: "string \<Rightarrow> bool" where
  "string_exceeds_500 s =
     (let t = trim s in
      case t of
        [] \<Rightarrow> False
      | c # cs \<Rightarrow>
          if c = CHR ''-'' then False
          else if c = CHR ''0'' \<and> cs \<noteq> [] \<and> (hd cs = CHR ''x'' \<or> hd cs = CHR ''X'')
            then radix_exceeds_500 16 (tl cs)
          else if c = CHR ''0'' \<and> cs \<noteq> [] \<and> (hd cs = CHR ''o'' \<or> hd cs = CHR ''O'')
            then radix_exceeds_500 8 (tl cs)
          else if c = CHR ''0'' \<and> cs \<noteq> [] \<and> (hd cs = CHR ''b'' \<or> hd cs = CHR ''B'')
            then radix_exceeds_500 2 (tl cs)
          else
            (let u = (if c = CHR ''+'' then cs else t)
             in if u = ''Infinity'' then True
                else (case decimal_literal u of
                        None \<Rightarrow> False
                      | Some (m, ex) \<Rightarrow> decimal_exceeds_500 m ex)))"

fun exceeds_500 :: "jsval \<Rightarrow> bool" where
  "exceeds_500 (JNum n) = (500 < n)"
| "exceeds_500 (JStr s) = string_exceeds_500 s"
| "exceeds_500 (JError n m st) = string_exceeds_500 (to_string (JError n m st))"
| "exceeds_500 v = False"

text \<open>
  The \<^verbatim>\<open>message\<close> field of \<^verbatim>\<open>logUserMessage\<close>:
  \<^verbatim>\<open>message.length > 500 ? message.substring(0, 500) + '...' : message\<close>. A value that is not
  a string has no \<^verbatim>\<open>substring\<close> method.
\<close>

definition message_field :: "jsval \<Rightarrow> js_error + jsval" where
  "message_field message =
     (case get_prop message ''length'' of
        Inl err \<Rightarrow> Inl err
      | Inr len \<Rightarrow>
          if exceeds_500 len
          then (case message of
                  JStr s \<Rightarrow> Inr (JStr (take 500 s @ ''...''))
                | _ \<Rightarrow> Inl TypeError)
          else Inr message)"

text \<open>The part of \<^verbatim>\<open>logUserMessage\<close> that adds the user state, when there is one.\<close>

definition add_user_state :: "jsval \<Rightarrow> obj \<Rightarrow> obj" where
  "add_user_state userState logData =
     (if truthy userState
      then
        (let current = (case get_prop userState ''current'' of Inr v \<Rightarrow> v | Inl err \<Rightarrow> JUndefined);
             logData1 = set_prop ''userState'' (if truthy current then current else userState) logData;
             stateData = (case get_prop userState ''data'' of Inr v \<Rightarrow> v | Inl err \<Rightarrow> JUndefined)
         in if truthy stateData \<and> length (own_props stateData) > 0
            then set_prop ''stateData'' stateData logData1
            else logData1)
      else logData)"

definition logUserMessage ::
  "env \<Rightarrow> world \<Rightarrow> js_error + frame list \<Rightarrow> jsval \<Rightarrow> jsval \<Rightarrow> jsval \<Rightarrow> (js_error + unit) \<times> world" where
  "logUserMessage e w capture user message userState =
     (let (caller, w1) = getCallerInfo e w capture 2 in
      case get_prop user ''username'' of
        Inl err \<Rightarrow> (Inl err, w1)
      | Inr username \<Rightarrow>
     (case get_prop user ''id'' of
        Inl err \<Rightarrow> (Inl err, w1)
      | Inr userId \<Rightarrow>
     (case get_prop user ''first_name'' of
        Inl err \<Rightarrow> (Inl err, w1)
      | Inr first_name \<Rightarrow>
     (case get_prop user ''last_name'' of
        Inl err \<Rightarrow> (Inl err, w1)
      | Inr last_name \<Rightarrow>
          let firstName = (if truthy first_name then first_name else JStr []);
              lastName = (if truthy last_name then last_name else JStr []);
              fullName = trim (to_string firstName @ '' '' @ to_string lastName)
          in (case message_field message of
                Inl err \<Rightarrow> (Inl err, w1)
              | Inr text \<Rightarrow>
                  logger_log e w1 (JStr ''info'') (JStr ''user_message'')
                    (add_user_state userState
                       (set_prop ''caller'' (JStr (caller_string caller))
                       (set_prop ''message'' text
                       (set_prop ''fullName'' (if fullName = [] then JNull else JStr fullName)
                       (set_prop ''username'' username
                       (set_prop ''userId'' userId [])))))))))))"

text \<open>\<^verbatim>\<open>ctx.from?.k\<close>.\<close>

definition from_field :: "jsval \<Rightarrow> string \<Rightarrow> js_error + jsval" where
  "from_field ctx k =
     (case get_prop ctx ''from'' of
        Inl err \<Rightarrow> Inl err
      | Inr JUndefined \<Rightarrow> Inr JUndefined
      | Inr JNull \<Rightarrow> Inr JUndefined
      | Inr sender \<Rightarrow> get_prop sender k)"

definition logUserAction ::
  "env \<Rightarrow> world \<Rightarrow> js_error + frame list \<Rightarrow> jsval \<Rightarrow> jsval \<Rightarrow> jsval \<Rightarrow> (js_error + unit) \<times> world" where
  "logUserAction e w capture action ctx details =
     (let ctx = default_obj ctx;
          details = default_obj details;
          (caller, w1) = getCallerInfo e w capture 2
      in case from_field ctx ''id'' of
           Inl err \<Rightarrow> (Inl err, w1)
         | Inr userId \<Rightarrow>
        (case from_field ctx ''username'' of
           Inl err \<Rightarrow> (Inl err, w1)
         | Inr username \<Rightarrow>
        (case get_prop ctx ''userState'' of
           Inl err \<Rightarrow> (Inl err, w1)
         | Inr userState \<Rightarrow>
        (case get_prop ctx ''user'' of
           Inl err \<Rightarrow> (Inl err, w1)
         | Inr user \<Rightarrow>
             logger_log e w1 (JStr ''info'') action
               (set_prop ''caller'' (JStr (caller_string caller))
                  (spread (spread (spread
                     (set_prop ''username'' username (set_prop ''userId'' userId []))
                     details) userState) user))))))"

text \<open>
  The object literal \<^verbatim>\<open>{...ctx.userState, ...ctx.user, ...meta, caller: c}\<close> shared by
  \<^verbatim>\<open>logInfo\<close>, \<^verbatim>\<open>logWarn\<close>, \<^verbatim>\<open>logDebug\<close> and the string branch of \<^verbatim>\<open>logError\<close>.
\<close>

definition context_meta_record :: "jsval \<Rightarrow> jsval \<Rightarrow> string \<Rightarrow> js_error + obj" where
  "context_meta_record ctx meta c =
     (case get_prop ctx ''userState'' of
        Inl err \<Rightarrow> Inl err
      | Inr userState \<Rightarrow>
     (case get_prop ctx ''user'' of
        Inl err \<Rightarrow> Inl err
      | Inr user \<Rightarrow>
          Inr (set_prop ''caller'' (JStr c) (spread (spread (spread [] userState) user) meta))))"

definition log_at ::
  "string \<Rightarrow> env \<Rightarrow> world \<Rightarrow> js_error + frame list \<Rightarrow> jsval \<Rightarrow> jsval \<Rightarrow> jsval \<Rightarrow> (js_error + unit) \<times> world" where
  "log_at level e w capture message ctx meta =
     (let ctx = default_obj ctx;
          meta = default_obj meta;
          (caller, w1) = getCallerInfo e w capture 2
      in case context_meta_record ctx meta (caller_string caller) of
           Inl err \<Rightarrow> (Inl err, w1)
         | Inr logData \<Rightarrow> logger_log e w1 (JStr level) message logData)"

definition logInfo ::
  "env \<Rightarrow> world \<Rightarrow> js_error + frame list \<Rightarrow> jsval \<Rightarrow> jsval \<Rightarrow> jsval \<Rightarrow> (js_error + unit) \<times> world" where
  "logInfo = log_at ''info''"

definition logWarn ::
  "env \<Rightarrow> world \<Rightarrow> js_error + frame list \<Rightarrow> jsval \<Rightarrow> jsval \<Rightarrow> jsval \<Rightarrow> (js_error + unit) \<times> world" where
  "logWarn = log_at ''warn''"

definition logDebug ::
  "env \<Rightarrow> world \<Rightarrow> js_error + frame list \<Rightarrow> jsval \<Rightarrow> jsval \<Rightarrow> jsval \<Rightarrow> (js_error + unit) \<times> world" where
  "logDebug = log_at ''debug''"

text \<open>
  \<^verbatim>\<open>logError(error, ctx = {}, meta = {})\<close>. In the branch for \<^verbatim>\<open>Error\<close> instances the
  object literal spreads the identifier \<^verbatim>\<open>context\<close>, which is neither a parameter nor a
  variable of the module: \<open>context\<close> is its binding on the global object, \<open>None\<close> when
  there is none, and then evaluating the identifier throws a \<^verbatim>\<open>ReferenceError\<close>. The
  properties \<^verbatim>\<open>stack\<close> and \<^verbatim>\<open>errorName\<close> come first, then the spread of
  \<^verbatim>\<open>context\<close>, then \<^verbatim>\<open>caller\<close>, then the spreads of \<^verbatim>\<open>ctx.userState\<close> and
  \<^verbatim>\<open>ctx.user\<close>; \<^verbatim>\<open>meta\<close> is not read in this branch.
\<close>

definition logError ::
  "env \<Rightarrow> jsval option \<Rightarrow> world \<Rightarrow> js_error + frame list \<Rightarrow> jsval \<Rightarrow> jsval \<Rightarrow> jsval
     \<Rightarrow> (js_error + unit) \<times> world" where
  "logError e context w capture error ctx meta =
     (let ctx = default_obj ctx;
          meta = default_obj meta
      in case error of
           JError name message stack \<Rightarrow>
             (let errorLocation = getErrorLocation e error;
                  (caller, w1) =
                     (if loc_file errorLocation \<noteq> ''unknown''
                      then (caller_string errorLocation, w)
                      else (let (callerInfo, w') = getCallerInfo e w capture 2
                            in (caller_string callerInfo, w')))
              in case context of
                   None \<Rightarrow> (Inl ReferenceError, w1)
                 | Some contextValue \<Rightarrow>
                (case get_prop ctx ''userState'' of
                   Inl err \<Rightarrow> (Inl err, w1)
                 | Inr userState \<Rightarrow>
                (case get_prop ctx ''user'' of
                   Inl err \<Rightarrow> (Inl err, w1)
                 | Inr user \<Rightarrow>
                     logger_log e w1 (JStr ''error'') (JStr message)
                       (spread (spread
                          (set_prop ''caller'' (JStr caller)
                             (spread
                                (set_prop ''errorName'' (JStr name)
                                   (set_prop ''stack''
                                      (case stack of Some t \<Rightarrow> JStr t | None \<Rightarrow> JUndefined) []))
                                contextValue))
                          userState) user))))
         | _ \<Rightarrow>
             (let (callerInfo, w1) = getCallerInfo e w capture 2
              in case toString_call error of
                   Inl err \<Rightarrow> (Inl err, w1)
                 | Inr text \<Rightarrow>
                (case context_meta_record ctx meta (caller_string callerInfo) of
                   Inl err \<Rightarrow> (Inl err, w1)
                 | Inr logData \<Rightarrow> logger_log e w1 (JStr ''error'') (JStr text) logData)))"

text \<open>\<^verbatim>\<open>logWithCaller(level, message, customCaller, meta = {})\<close>.\<close>

definition logWithCaller ::
  "env \<Rightarrow> world \<Rightarrow> jsval \<Rightarrow> jsval \<Rightarrow> jsval \<Rightarrow> jsval \<Rightarrow> (js_error + unit) \<times> world" where
  "logWithCaller e w level message customCaller meta =
     logger_log e w level message (set_prop ''caller'' customCaller (spread [] (default_obj meta)))"

text \<open>
  The stream for the HTTP access log: \<^verbatim>\<open>write(message)\<close> calls \<^verbatim>\<open>message.trim()\<close>,
  a method that only strings have.
\<close>

definition stream_write :: "env \<Rightarrow> world \<Rightarrow> jsval \<Rightarrow> (js_error + unit) \<times> world" where
  "stream_write e w message =
     (case message of
        JStr s \<Rightarrow> logger_log e w (JStr ''info'') (JStr (trim s)) (set_prop ''caller'' (JStr ''http/morgan'') [])
      | _ \<Rightarrow> (Inl TypeError, w))"

section \<open>Timestamps\<close>

text \<open>
  A \<^verbatim>\<open>Date\<close> is its time value: milliseconds since 1970-01-01T00:00:00Z. The host
  time zone is the function \<open>tz\<close> that gives, for an instant, what
  \<^verbatim>\<open>getTimezoneOffset()\<close> returns there: UTC minus local time, in minutes (\<open>- 300\<close>
  on a host at UTC+5). Time values stay within the range of valid dates.
\<close>

text \<open>The proleptic Gregorian date (year, month, day) of a day number counted from 1970-01-01.\<close>

definition civil_from_days :: "int \<Rightarrow> int \<times> int \<times> int" where
  "civil_from_days days =
     (let z = days + 719468;
          era = z div 146097;
          doe = z - era * 146097;
          yoe = (doe - doe div 1460 + doe div 36524 - doe div 146096) div 365;
          doy = doe - (365 * yoe + yoe div 4 - yoe div 100);
          mp = (5 * doy + 2) div 153;
          d = doy - (153 * mp + 2) div 5 + 1;
          m = (if mp < 10 then mp + 3 else mp - 9);
          y = yoe + era * 400 + (if m \<le> 2 then 1 else 0)
      in (y, m, d))"

definition pad :: "nat \<Rightarrow> int \<Rightarrow> string" where
  "pad width n = replicate (width - length (string_of_nat (nat n))) CHR ''0'' @ string_of_nat (nat n)"

text \<open>The UTC fields of a time value, as \<^verbatim>\<open>toISOString\<close> prints them.\<close>

definition iso_year :: "int \<Rightarrow> string" where
  "iso_year y =
     (if 0 \<le> y \<and> y \<le> 9999 then pad 4 y
      else if y < 0 then CHR ''-'' # pad 6 (- y)
      else CHR ''+'' # pad 6 y)"

definition toISOString :: "int \<Rightarrow> string" where
  "toISOString t =
     (let days = t div 86400000;
          ms = t mod 86400000;
          (y, m, d) = civil_from_days days
      in iso_year y @ ''-'' @ pad 2 m @ ''-'' @ pad 2 d @ ''T'' @
         pad 2 (ms div 3600000) @ '':'' @ pad 2 (ms mod 3600000 div 60000) @ '':'' @
         pad 2 (ms mod 60000 div 1000) @ ''.'' @ pad 3 (ms mod 1000) @ ''Z'')"

text \<open>\<^verbatim>\<open>s.replace('T', ' ')\<close>: the first occurrence only.\<close>

fun replace_first :: "char \<Rightarrow> char \<Rightarrow> string \<Rightarrow> string" where
  "replace_first a b [] = []"
| "replace_first a b (c # cs) = (if c = a then b # cs else c # replace_first a b cs)"

text \<open>\<^verbatim>\<open>s.replace(/\..+/, '')\<close>.\<close>

definition fraction_pattern :: "rx list" where
  "fraction_pattern = [Lit ''.'', Plus True AnyChar]"

definition strip_fraction :: "string \<Rightarrow> string" where
  "strip_fraction s = (case search fraction_pattern s of None \<Rightarrow> s | Some (pre, post, c) \<Rightarrow> pre @ post)"

text \<open>The \<^verbatim>\<open>format\<close> function of the timestamp in \<^verbatim>\<open>logFormat\<close> (the file sinks).\<close>

definition logFormat_timestamp :: "(int \<Rightarrow> int) \<Rightarrow> int \<Rightarrow> string" where
  "logFormat_timestamp tz now =
     (let utc = now + tz now * 60000;
          tashkentTime = utc + 5 * 3600000
      in strip_fraction (replace_first CHR ''T'' CHR '' '' (toISOString tashkentTime)))"

text \<open>
  \<^verbatim>\<open>toLocaleString('en-GB', ...)\<close> with two-digit fields and a numeric year prints the
  local fields of the date in the host zone as \<^verbatim>\<open>DD/MM/Y, HH:MM:SS\<close>, the year
  of the era without padding; the local fields of a time value \<open>t\<close> are the UTC
  fields of \<open>t - tz t * 60000\<close>.
\<close>

definition toLocaleString_enGB :: "(int \<Rightarrow> int) \<Rightarrow> int \<Rightarrow> string" where
  "toLocaleString_enGB tz t =
     (let local = t - tz t * 60000;
          days = local div 86400000;
          ms = local mod 86400000;
          (y, m, d) = civil_from_days days
      in pad 2 d @ ''/'' @ pad 2 m @ ''/'' @
         string_of_nat (nat (if 1 \<le> y then y else 1 - y)) @ '', '' @
         pad 2 (ms div 3600000) @ '':'' @ pad 2 (ms mod 3600000 div 60000) @ '':'' @
         pad 2 (ms mod 60000 div 1000))"

text \<open>\<^verbatim>\<open>s.replace(/(\d+)\/(\d+)\/(\d+),/, '$3-$2-$1')\<close>.\<close>

definition date_pattern :: "rx list" where
  "date_pattern =
     [Grp 1 [Plus True Digit], Lit ''/'', Grp 2 [Plus True Digit], Lit ''/'',
      Grp 3 [Plus True Digit], Lit '','']"

definition reorder_date :: "string \<Rightarrow> string" where
  "reorder_date s =
     (case search date_pattern s of
        None \<Rightarrow> s
      | Some (pre, post, c) \<Rightarrow>
          (case (map_of c 1, map_of c 2, map_of c 3) of
             (Some g1, Some g2, Some g3) \<Rightarrow> pre @ g3 @ ''-'' @ g2 @ ''-'' @ g1 @ post
           | _ \<Rightarrow> s))"

text \<open>The \<^verbatim>\<open>format\<close> function of the timestamp in \<^verbatim>\<open>consoleFormat\<close>.\<close>

definition consoleFormat_timestamp :: "(int \<Rightarrow> int) \<Rightarrow> int \<Rightarrow> string" where
  "consoleFormat_timestamp tz now =
     (let utc = now + tz now * 60000;
          tashkentTime = utc + 5 * 3600000
      in reorder_date (toLocaleString_enGB tz tashkentTime))"

section \<open>Concrete inputs\<close>

text \<open>
  A project checked out in \<^verbatim>\<open>/project\<close> on a POSIX host, an initial world, and the
  live stack of a call of a logging operation from \<^verbatim>\<open>app/handlers/language.js\<close>:
  the resolver, the logging operation, the handler, and the framework that called it.
\<close>

definition project :: env where
  "project = posix_env ''/project''"

definition w0 :: world where
  "w0 = \<lparr>prepareStackTrace = NoHook, emitted = [], console = []\<rparr>"

definition handler_frame :: frame where
  "handler_frame = \<lparr>fileName = Some ''/project/app/handlers/language.js'', lineNumber = Some 62\<rparr>"

definition handler_stack :: "frame list" where
  "handler_stack =
     [\<lparr>fileName = Some ''/project/app/logger.js'', lineNumber = Some 23\<rparr>,
      \<lparr>fileName = Some ''/project/app/logger.js'', lineNumber = Some 206\<rparr>,
      handler_frame,
      \<lparr>fileName = Some ''/project/node_modules/telegraf/lib/composer.js'', lineNumber = Some 165\<rparr>]"

text \<open>The stack text of the specification's example for the extractor.\<close>

definition example_stack_text :: string where
  "example_stack_text = ''Error: x'' @ [CHR 0x0A] @ '' at foo (/project/app/handlers/x.js:42:7)''"

text \<open>A line as the access-log middleware writes it, indented and ending in a newline.\<close>

definition access_line :: string where
  "access_line = ''  GET /status 200'' @ [CHR 0x0A]"

text \<open>
  The error that \<^verbatim>\<open>app/index.js\<close> logs at start-up when a variable is missing, with
  the stack text that V8 gives it.
\<close>

definition startup_error :: jsval where
  "startup_error =
     JError ''Error'' ''Missing required environment variables: BOT_TOKEN''
       (Some (''Error: Missing required environment variables: BOT_TOKEN'' @ [CHR 0x0A] @
              ''    at Object.<anonymous> (/project/app/index.js:19:28)''))"

text \<open>
  The same call from \<^verbatim>\<open>app/handlers/blogger.js\<close>, a handler that was itself called
  from \<^verbatim>\<open>app/handlers/language.js\<close>.
\<close>

definition blogger_frame :: frame where
  "blogger_frame = \<lparr>fileName = Some ''/project/app/handlers/blogger.js'', lineNumber = Some 7\<rparr>"

definition blogger_stack :: "frame list" where
  "blogger_stack =
     [\<lparr>fileName = Some ''/project/app/logger.js'', lineNumber = Some 23\<rparr>,
      \<lparr>fileName = Some ''/project/app/logger.js'', lineNumber = Some 206\<rparr>,
      blogger_frame,
      handler_frame]"

text \<open>
  The call of the first stack in a project checked out in \<^verbatim>\<open>/home/winston/bot\<close>.
\<close>

definition winston_home :: env where
  "winston_home = posix_env ''/home/winston/bot''"

definition winston_home_frame :: frame where
  "winston_home_frame =
     \<lparr>fileName = Some ''/home/winston/bot/app/handlers/language.js'', lineNumber = Some 62\<rparr>"

definition winston_home_library_frame :: frame where
  "winston_home_library_frame =
     \<lparr>fileName = Some ''/home/winston/bot/node_modules/telegraf/lib/composer.js'',
      lineNumber = Some 165\<rparr>"

definition winston_home_stack :: "frame list" where
  "winston_home_stack =
     [\<lparr>fileName = Some ''/home/winston/bot/app/logger.js'', lineNumber = Some 23\<rparr>,
      \<lparr>fileName = Some ''/home/winston/bot/app/logger.js'', lineNumber = Some 206\<rparr>,
      winston_home_frame,
      winston_home_library_frame]"

text \<open>
  A request context whose user state has a field \<^verbatim>\<open>step\<close>, and explicit details
  and metadata with the same key.
\<close>

definition colliding_ctx :: jsval where
  "colliding_ctx =
     JObj [(''from'', JObj [(''id'', JNum 7), (''username'', JStr ''ann'')]),
           (''userState'', JObj [(''step'', JStr ''ambient''), (''caller'', JStr ''forged'')])]"

definition colliding_details :: jsval where
  "colliding_details = JObj [(''step'', JStr ''explicit'')]"

text \<open>A stack text whose frames all lie in the dependency directory.\<close>

definition dependency_stack_text :: string where
  "dependency_stack_text =
     ''TypeError: boom'' @ [CHR 0x0A] @
     ''    at Composer.handle (/project/node_modules/telegraf/lib/composer.js:165:12)'' @ [CHR 0x0A] @
     ''    at /project/node_modules/telegraf/lib/telegraf.js:30:9''"

text \<open>
  A stack text whose only frame lies in the dependency directory, in a package
  directory with parentheses in its name.
\<close>

definition paren_stack_text :: string where
  "paren_stack_text =
     ''Error: x'' @ [CHR 0x0A] @ ''    at f (/project/node_modules/pkg(1)/a.js:3:1)''"

section \<open>Predicates of the statements\<close>

text \<open>
  In the words of the specification: a line of a stack text bears a file when it names
  a JavaScript file with a line number, and the stack text has only frames inside the
  dependency directory when every file-bearing line references
  \<^verbatim>\<open>node_modules\<close>.
\<close>

definition file_bearing :: "string \<Rightarrow> bool" where
  "file_bearing l = str_includes l ''.js:''"

definition dependency_only :: "string \<Rightarrow> bool" where
  "dependency_only stackText =
     list_all (\<lambda>l. str_includes l ''node_modules'')
       (filter file_bearing (split_on CHR 0x0A stackText))"

text \<open>\<^verbatim>\<open>error instanceof Error\<close>, the test that selects the branch of \<^verbatim>\<open>logError\<close>.\<close>

fun instanceof_Error :: "jsval \<Rightarrow> bool" where
  "instanceof_Error (JError n m st) = True"
| "instanceof_Error v = False"


section \<open>Properties\<close>

subsection \<open>Writing properties into an object\<close>

lemma insert_index_Cons:
  "insert_index i k v ((a, b) # ps) =
     (if is_index_key a \<and> int_of_digits a < i then (a, b) # insert_index i k v ps
      else (k, v) # (a, b) # ps)"
  by simp

lemma map_of_insert_index:
  "map_of ob k = None \<Longrightarrow> map_of (insert_index i k v ob) = (map_of ob)(k \<mapsto> v)"
proof (induction ob)
  case Nil
  then show ?case by simp
next
  case (Cons p ps)
  obtain a b where p: "p = (a, b)" by (cases p)
  from Cons.prems have ne: "a \<noteq> k" and rest: "map_of ps k = None"
    by (auto simp: p split: if_splits)
  have ih: "map_of (insert_index i k v ps) = (map_of ps)(k \<mapsto> v)"
    by (rule Cons.IH [OF rest])
  show ?case
    unfolding p insert_index_Cons
    using ne by (auto simp add: ih fun_eq_iff simp del: insert_index.simps)
qed

lemma keys_insert_index:
  "set (map fst (insert_index i k v ob)) = insert k (set (map fst ob))"
  by (induction ob) auto

lemma distinct_insert_index:
  "map_of ob k = None \<Longrightarrow> distinct (map fst ob) \<Longrightarrow>
   distinct (map fst (insert_index i k v ob))"
proof (induction ob)
  case Nil
  then show ?case by simp
next
  case (Cons p ps)
  obtain a b where p: "p = (a, b)" by (cases p)
  from Cons.prems have ne: "a \<noteq> k" and rest: "map_of ps k = None"
    and d: "distinct (map fst ps)" and na: "a \<notin> set (map fst ps)"
    by (auto simp: p split: if_splits)
  have nk: "k \<notin> set (map fst ps)"
    using rest by (simp add: map_of_eq_None_iff)
  have ih: "distinct (map fst (insert_index i k v ps))"
    by (rule Cons.IH [OF rest d])
  have na': "a \<notin> set (map fst (insert_index i k v ps))"
    using na ne by (simp only: keys_insert_index) simp
  show ?case
    unfolding p insert_index_Cons
    using ne nk na d ih na' by (simp del: insert_index.simps)
qed

lemma map_of_put_prop: "map_of (put_prop k v ob) = (map_of ob)(k \<mapsto> v)"
  by (simp add: put_prop_def map_of_insert_index update_conv')

lemma distinct_put_prop:
  "distinct (map fst ob) \<Longrightarrow> distinct (map fst (put_prop k v ob))"
  by (simp add: put_prop_def distinct_insert_index distinct_update)

lemma map_of_set_prop: "map_of (set_prop k v t) k' = (if k' = k then Some v else map_of t k')"
  by (simp add: set_prop_def map_of_put_prop)

lemma distinct_set_prop: "distinct (map fst t) \<Longrightarrow> distinct (map fst (set_prop k v t))"
  by (simp add: set_prop_def distinct_put_prop)

lemma set_prop_caller_empty: "set_prop ''caller'' v [] = [(''caller'', v)]"
  by (simp add: set_prop_def put_prop_def is_index_key_def is_digit_def)


subsection \<open>The resolver leaves the world as it found it\<close>

lemma getCallerInfo_world: "snd (getCallerInfo e w capture skipFrames) = w"
  by (simp add: getCallerInfo_def Let_def split: prod.splits sum.splits)

lemma getCallerInfo_pair:
  "getCallerInfo e w capture skipFrames = (fst (getCallerInfo e w capture skipFrames), w)"
  using getCallerInfo_world [of e w capture skipFrames] by (metis prod.collapse)

text \<open>
  C7. Whatever the resolver does (it finds a frame, it finds none, or reading the stack
  throws, which includes a negative \<open>skipFrames\<close>), the hook
  \<^verbatim>\<open>Error.prepareStackTrace\<close> holds after the call the value it held before.
\<close>

theorem getCallerInfo_restores_hook:
  "prepareStackTrace (snd (getCallerInfo e w capture skipFrames)) = prepareStackTrace w"
  by (simp add: getCallerInfo_def Let_def split: prod.splits sum.splits)

subsection \<open>Truncation of user messages\<close>

lemma map_of_add_user_state:
  "k \<noteq> ''userState'' \<Longrightarrow> k \<noteq> ''stateData'' \<Longrightarrow>
   map_of (add_user_state us ld) k = map_of ld k"
  by (simp add: add_user_state_def Let_def map_of_set_prop)

lemma message_field_string:
  "message_field (JStr text) =
     Inr (JStr (if length text > 500 then take 500 text @ ''...'' else text))"
  by (simp add: message_field_def)

text \<open>
  C5. For every string \<open>text\<close> (and every user object, user state and stack),
  \<^verbatim>\<open>logUserMessage\<close> hands the logger one record at level \<^verbatim>\<open>info\<close> whose
  \<^verbatim>\<open>message\<close> field is the first 500 characters of \<open>text\<close> followed by
  \<^verbatim>\<open>...\<close> when \<open>text\<close> is longer than 500 characters, and \<open>text\<close> itself
  otherwise.
\<close>

theorem logUserMessage_truncates:
  assumes "transport_fault e = None"
  shows "\<exists>r. logUserMessage e w capture (JObj u) (JStr text) userState =
              (Inr (), w\<lparr>emitted := emitted w @ [(JStr ''info'', JStr ''user_message'', r)]\<rparr>) \<and>
            map_of r ''message'' =
              Some (JStr (if length text > 500 then take 500 text @ ''...'' else text))"
proof -
  obtain c where c: "getCallerInfo e w capture 2 = (c, w)"
    using getCallerInfo_pair by blast
  show ?thesis
    using assms
    by (auto simp add: logUserMessage_def Let_def c message_field_string logger_log_def
        map_of_add_user_state map_of_set_prop)
qed

theorem logUserMessage_truncates_witness:
  "transport_fault project = None \<and>
   (\<exists>r. logUserMessage project w0 (Inr handler_stack) (JObj [(''id'', JNum 7)])
           (JStr (replicate 501 CHR ''a'')) JNull =
           (Inr (), w0\<lparr>emitted := emitted w0 @ [(JStr ''info'', JStr ''user_message'', r)]\<rparr>) \<and>
         map_of r ''message'' = Some (JStr (replicate 500 CHR ''a'' @ ''...'')))"
proof -
  have h: "transport_fault project = None"
    by (simp add: project_def posix_env_def)
  show ?thesis
    using h logUserMessage_truncates [OF h, of w0 "Inr handler_stack" "[(''id'', JNum 7)]"
        "replicate 501 CHR ''a''" JNull]
    by simp
qed

subsection \<open>The branch of \<^verbatim>\<open>logError\<close> for \<^verbatim>\<open>Error\<close> values\<close>

text \<open>
  C1. The policy is that no logging operation raises to its caller. At the start-up
  call \<^verbatim>\<open>logError(new Error('Missing required environment variables: ...'))\<close> of
  \<^verbatim>\<open>app/index.js\<close> the operation raises a \<^verbatim>\<open>ReferenceError\<close>: the object literal
  of the \<^verbatim>\<open>Error\<close> branch spreads \<^verbatim>\<open>context\<close>, an identifier with no binding
  (the parameter is called \<^verbatim>\<open>ctx\<close>). Likewise \<^verbatim>\<open>logUserMessage\<close> raises a
  \<^verbatim>\<open>TypeError\<close> on a text that is \<^verbatim>\<open>undefined\<close>.
\<close>

theorem logError_raises_on_Error_value:
  "logError project None w0 (Inr handler_stack) startup_error JUndefined JUndefined =
     (Inl ReferenceError, w0) \<and>
   fst (logUserMessage project w0 (Inr handler_stack) (JObj [(''id'', JNum 7)]) JUndefined JNull) =
     Inl TypeError"
proof -
  obtain c where c: "getCallerInfo project w0 (Inr handler_stack) 2 = (c, w0)"
    using getCallerInfo_pair by blast
  show ?thesis
    by (simp add: logError_def logUserMessage_def startup_error_def Let_def c message_field_def)
qed

text \<open>
  With a binding for \<^verbatim>\<open>context\<close> the branch would hand the logger a record
  that carries the stack text and the type name, with the caller taken from the error's
  own stack and from the resolver only when the extractor gives the sentinel.
\<close>

lemma logError_Error_branch_bound:
  assumes "transport_fault e = None"
    and "get_prop (default_obj ctx) ''userState'' = Inr us"
    and "get_prop (default_obj ctx) ''user'' = Inr u"
  shows "logError e (Some contextValue) w capture (JError name message stack) ctx meta =
     (Inr (), w\<lparr>emitted := emitted w @
        [(JStr ''error'', JStr message,
          spread (spread
            (set_prop ''caller''
               (JStr (caller_string
                  (if loc_file (getErrorLocation e (JError name message stack)) \<noteq> ''unknown''
                   then getErrorLocation e (JError name message stack)
                   else fst (getCallerInfo e w capture 2))))
               (spread
                  (set_prop ''errorName'' (JStr name)
                     (set_prop ''stack'' (case stack of Some t \<Rightarrow> JStr t | None \<Rightarrow> JUndefined) []))
                  contextValue))
            us) u)]\<rparr>)"
proof -
  obtain c where c: "getCallerInfo e w capture 2 = (c, w)"
    using getCallerInfo_pair by blast
  show ?thesis
    using assms by (simp add: logError_def Let_def c logger_log_def)
qed

text \<open>
  C8. The dual path is what the source sets out to do: it computes the caller from the
  error's own stack and falls back to the resolver. But with \<^verbatim>\<open>context\<close> unbound,
  for every \<^verbatim>\<open>Error\<close> value the call ends in a \<^verbatim>\<open>ReferenceError\<close> before the
  logger is called: no record results, so none carries the stack text and the type name.
\<close>

theorem logError_Error_branch_never_records:
  "logError e None w capture (JError name message stack) ctx meta = (Inl ReferenceError, w) \<and>
   emitted (snd (logError e None w capture (JError name message stack) ctx meta)) = emitted w"
proof -
  obtain c where c: "getCallerInfo e w capture 2 = (c, w)"
    using getCallerInfo_pair by blast
  show ?thesis
    by (simp add: logError_def Let_def c)
qed

text \<open>
  C10. For an \<^verbatim>\<open>Error\<close> value as first argument the outcome of \<^verbatim>\<open>logError\<close> (the
  record handed to the logger, or the exception) is the same for any two \<^verbatim>\<open>meta\<close>
  arguments, whatever \<^verbatim>\<open>context\<close> is bound to: the branch does not read \<^verbatim>\<open>meta\<close>.
\<close>

theorem logError_Error_branch_ignores_meta:
  "logError e context w capture (JError name message stack) ctx m1 =
   logError e context w capture (JError name message stack) ctx m2"
  by (simp add: logError_def Let_def)

subsection \<open>Timestamps and the host time zone\<close>

text \<open>
  The file timestamp on a host with offset \<open>tz\<close> is the one a host at UTC prints
  for the instant shifted by that offset; the console timestamp is the same on every
  host whose offset does not change.
\<close>

lemma logFormat_timestamp_shift:
  "logFormat_timestamp tz now = logFormat_timestamp (\<lambda>t. 0) (now + tz now * 60000)"
  by (simp add: logFormat_timestamp_def)

lemma consoleFormat_timestamp_constant_zone:
  "consoleFormat_timestamp (\<lambda>t. c) now = consoleFormat_timestamp (\<lambda>t. 0) now"
  by (simp add: consoleFormat_timestamp_def toLocaleString_enGB_def Let_def)

text \<open>
  C6. The file timestamp is meant to be the time at UTC+5 on every host. At the instant
  0 a host at UTC prints \<^verbatim>\<open>1970-01-01 05:00:00\<close> and a host at UTC+5 prints
  \<^verbatim>\<open>1970-01-01 00:00:00\<close>: \<^verbatim>\<open>toISOString\<close> prints UTC fields, and the host's offset
  that was added for a local rendering stays in the result. The console timestamp, which
  renders local fields, is \<^verbatim>\<open>1970-01-01 05:00:00\<close> on both hosts.
\<close>

theorem logFormat_timestamp_follows_host_zone:
  "logFormat_timestamp (\<lambda>t. 0) 0 = ''1970-01-01 05:00:00'' \<and>
   logFormat_timestamp (\<lambda>t. - 300) 0 = ''1970-01-01 00:00:00'' \<and>
   consoleFormat_timestamp (\<lambda>t. 0) 0 = ''1970-01-01 05:00:00'' \<and>
   consoleFormat_timestamp (\<lambda>t. - 300) 0 = ''1970-01-01 05:00:00''"
  by code_simp

subsection \<open>The access-log stream\<close>

lemma rev_dropWhile_split:
  "rev (dropWhile P (rev xs)) @ rev (takeWhile P (rev xs)) = xs"
proof -
  have "rev (takeWhile P (rev xs) @ dropWhile P (rev xs)) = xs"
    by simp
  then show ?thesis
    by (simp only: rev_append)
qed

lemma trim_decompose:
  "\<exists>pre post. l = pre @ trim l @ post \<and> list_all is_space pre \<and> list_all is_space post"
proof -
  let ?d = "dropWhile is_space l"
  have 1: "l = takeWhile is_space l @ ?d" by simp
  have 2: "?d = trim l @ rev (takeWhile is_space (rev ?d))"
    unfolding trim_def by (rule rev_dropWhile_split [symmetric])
  have 3: "list_all is_space (takeWhile is_space l)"
    by (simp add: list_all_iff) (meson set_takeWhileD)
  have 4: "list_all is_space (rev (takeWhile is_space (rev ?d)))"
    by (simp add: list_all_iff) (meson set_takeWhileD)
  from 1 2 have "l = takeWhile is_space l @ trim l @ rev (takeWhile is_space (rev ?d))"
    by metis
  with 3 4 show ?thesis by blast
qed

lemma trim_ends:
  assumes "trim l \<noteq> []"
  shows "\<not> is_space (hd (trim l)) \<and> \<not> is_space (last (trim l))"
proof -
  let ?d = "dropWhile is_space l"
  let ?r = "dropWhile is_space (rev ?d)"
  have t: "trim l = rev ?r" by (simp add: trim_def)
  with assms have r: "?r \<noteq> []" by simp
  then have "\<not> is_space (hd ?r)" by (rule hd_dropWhile)
  then have last: "\<not> is_space (last (trim l))"
    using r t by (simp add: last_rev)
  have d: "?d = trim l @ rev (takeWhile is_space (rev ?d))"
    unfolding trim_def by (rule rev_dropWhile_split [symmetric])
  then have "?d \<noteq> []" using assms by (metis append_is_Nil_conv)
  then have "\<not> is_space (hd ?d)" by (rule hd_dropWhile)
  moreover have "hd ?d = hd (trim l)"
    using d assms by (metis hd_append2)
  ultimately show ?thesis using last by simp
qed

text \<open>
  C9 as stated fails: the stream removes leading white space too. For the line
  \<^verbatim>\<open>"  GET /status 200\n"\<close> the logged message is \<^verbatim>\<open>"GET /status 200"\<close>, while the
  line without its trailing white space is \<^verbatim>\<open>"  GET /status 200"\<close>.
\<close>

theorem stream_write_counterexample:
  "stream_write project w0 (JStr access_line) =
     (Inr (), w0\<lparr>emitted :=
        [(JStr ''info'', JStr ''GET /status 200'', [(''caller'', JStr ''http/morgan'')])]\<rparr>) \<and>
   trimEnd access_line = ''  GET /status 200'' \<and>
   ''GET /status 200'' \<noteq> trimEnd access_line"
  by code_simp

text \<open>
  C9, amended. For every line, the stream hands the logger one record at level
  \<^verbatim>\<open>info\<close> whose only metadata is the fixed caller label \<^verbatim>\<open>http/morgan\<close> and whose
  message is the line with its leading and its trailing white space removed: the line is
  white space, then the message, then white space, and a message that is not empty
  neither starts nor ends with white space.
\<close>

theorem stream_write_trims_both_ends:
  "(transport_fault e = None \<longrightarrow>
      stream_write e w (JStr l) =
        (Inr (), w\<lparr>emitted := emitted w @
           [(JStr ''info'', JStr (trim l), [(''caller'', JStr ''http/morgan'')])]\<rparr>)) \<and>
   (\<exists>pre post. l = pre @ trim l @ post \<and> list_all is_space pre \<and> list_all is_space post) \<and>
   (trim l \<noteq> [] \<longrightarrow> \<not> is_space (hd (trim l)) \<and> \<not> is_space (last (trim l)))"
  using trim_decompose [of l] trim_ends [of l]
  by (simp add: stream_write_def logger_log_def set_prop_caller_empty)

theorem stream_write_trims_both_ends_witness:
  "transport_fault project = None \<and>
   stream_write project w0 (JStr access_line) =
     (Inr (), w0\<lparr>emitted := emitted w0 @
        [(JStr ''info'', JStr ''GET /status 200'', [(''caller'', JStr ''http/morgan'')])]\<rparr>) \<and>
   trim access_line \<noteq> [] \<and>
   \<not> is_space (hd (trim access_line)) \<and> \<not> is_space (last (trim access_line))"
proof -
  have h: "transport_fault project = None"
    by (simp add: project_def posix_env_def)
  have t: "trim access_line = ''GET /status 200''"
    by code_simp
  show ?thesis
    using h t stream_write_trims_both_ends [of project w0 access_line]
    by simp
qed

subsection \<open>Which frame the resolver selects\<close>

text \<open>
  A negative \<open>skipFrames\<close>, or a stack that cannot be read, gives the sentinel
  whatever the frames are.
\<close>

lemma getCallerInfo_negative_skip:
  "skipFrames < 0 \<Longrightarrow> fst (getCallerInfo e w capture skipFrames) = sentinel"
  by (simp add: getCallerInfo_def try_body_def sentinel_def Let_def split: sum.splits)

lemma getCallerInfo_capture_fails:
  "fst (getCallerInfo e w (Inl err) skipFrames) = sentinel"
  by (simp add: getCallerInfo_def try_body_def sentinel_def Let_def)

text \<open>
  Where the substring tests do not reach further than the four conditions, the
  resolver does what the specification says: it passes over the frames that fail the
  conditions and stops at the first frame that meets them.
\<close>

lemma scan_frames_passes_over:
  "\<forall>g\<in>set rejected. \<not> spec_qualifies e g \<Longrightarrow>
   scan_frames e (rejected @ fs) = scan_frames e fs"
  by (induction rejected)
     (auto simp: spec_qualifies_def shouldSkip_def Let_def split: option.splits)

lemma scan_frames_stops:
  "spec_qualifies e f \<Longrightarrow> \<not> over_matched e f \<Longrightarrow>
   \<exists>filename. fileName f = Some filename \<and> scan_frames e (f # rest) = (filename, lineNumber f)"
  by (auto simp: spec_qualifies_def over_matched_def shouldSkip_def Let_def split: option.splits)

lemma getCallerInfo_first_spec_frame:
  assumes "relative e ''unknown'' = ''unknown''" and "0 \<le> skipFrames"
    and "drop (nat skipFrames) stack = rejected @ f # rest"
    and "\<forall>g\<in>set rejected. \<not> spec_qualifies e g"
    and "spec_qualifies e f" and "\<not> over_matched e f"
  shows "fst (getCallerInfo e w (Inr stack) skipFrames) = frame_location e f"
proof -
  obtain filename where fn: "fileName f = Some filename"
    and sc: "scan_frames e (f # rest) = (filename, lineNumber f)"
    using scan_frames_stops [OF assms(5,6)] by blast
  have "scan_frames e (rejected @ f # rest) = (filename, lineNumber f)"
    using scan_frames_passes_over [OF assms(4)] sc by simp
  then show ?thesis
    using assms(1,2,3) fn
    by (simp add: getCallerInfo_def try_body_def frame_location_def Let_def)
qed

text \<open>
  C3. The resolver is to return the first frame after the skipped ones that has a
  file path, is outside the dependency directory, is not part of the logging module and
  stays inside the project root. The source tests this with substrings, which reach
  further than its own comments say (\<^verbatim>\<open>Skip logger files\<close>,
  \<^verbatim>\<open>Skip winston files\<close>). In a project at \<^verbatim>\<open>/project\<close> the example of the
  specification comes out right, but a call from \<^verbatim>\<open>app/handlers/blogger.js\<close>, an
  application file that meets the four conditions, is passed over because its path
  contains \<^verbatim>\<open>logger.js\<close>, and the caller's caller is reported. In a project at
  \<^verbatim>\<open>/home/winston/bot\<close> every file name contains \<^verbatim>\<open>winston\<close>, and the same
  example returns the sentinel.
\<close>

theorem getCallerInfo_misattributes:
  "fst (getCallerInfo project w0 (Inr handler_stack) 2) =
     \<lparr>loc_file = ''app/handlers/language.js'', loc_line = Finite 62\<rparr> \<and>
   drop 2 blogger_stack = [blogger_frame, handler_frame] \<and>
   spec_qualifies project blogger_frame \<and>
   frame_location project blogger_frame =
     \<lparr>loc_file = ''app/handlers/blogger.js'', loc_line = Finite 7\<rparr> \<and>
   fst (getCallerInfo project w0 (Inr blogger_stack) 2) =
     \<lparr>loc_file = ''app/handlers/language.js'', loc_line = Finite 62\<rparr> \<and>
   drop 2 winston_home_stack = [winston_home_frame, winston_home_library_frame] \<and>
   spec_qualifies winston_home winston_home_frame \<and>
   frame_location winston_home winston_home_frame =
     \<lparr>loc_file = ''app/handlers/language.js'', loc_line = Finite 62\<rparr> \<and>
   fst (getCallerInfo winston_home w0 (Inr winston_home_stack) 2) = sentinel"
  by code_simp

subsection \<open>The extractor reads the stack text only\<close>

text \<open>
  The result of the extractor is a function of the stack text and of the path
  functions of the environment: it takes no live stack, and neither the name nor the
  message of the error enters.
\<close>

lemma getErrorLocation_of_text:
  "getErrorLocation e (JError name message (Some stackText)) =
     (if stackText = [] then sentinel else extract_location e stackText)"
  by (simp add: getErrorLocation_def)

text \<open>
  C4. On the stack text \<^verbatim>\<open>"Error: x\n at foo (/project/app/handlers/x.js:42:7)"\<close>
  with the project root \<^verbatim>\<open>/project\<close> the extractor returns the file
  \<^verbatim>\<open>app/handlers/x.js\<close> and the line 42, and on a stack text whose frames lie in
  \<^verbatim>\<open>node_modules/telegraf\<close> it returns the sentinel. But the test for the
  dependency directory looks at the captured path only, and the class
  \<^verbatim>\<open>[^()]\<close> of the pattern cannot cross a parenthesis: for the single frame
  \<^verbatim>\<open>/project/node_modules/pkg(1)/a.js:3:1\<close> the capture is \<^verbatim>\<open>/a.js\<close>, the
  test does not see \<^verbatim>\<open>node_modules\<close>, and the extractor reports the file
  \<^verbatim>\<open>../a.js\<close>, line 3, for a stack whose only file-bearing line references the
  dependency directory.
\<close>

theorem getErrorLocation_misses_dependency:
  "getErrorLocation project (JError ''Error'' ''x'' (Some example_stack_text)) =
     \<lparr>loc_file = ''app/handlers/x.js'', loc_line = Finite 42\<rparr> \<and>
   dependency_only dependency_stack_text \<and>
   getErrorLocation project (JError ''TypeError'' ''boom'' (Some dependency_stack_text)) = sentinel \<and>
   dependency_only paren_stack_text \<and>
   match_line (last (split_on CHR 0x0A paren_stack_text)) = Some (''/a.js'', ''3'') \<and>
   getErrorLocation project (JError ''Error'' ''x'' (Some paren_stack_text)) =
     \<lparr>loc_file = ''../a.js'', loc_line = Finite 3\<rparr>"
  by code_simp

subsection \<open>Precedence of the merged fields\<close>

lemma map_of_fold_update:
  "map_of (fold (\<lambda>(k, v). put_prop k v) es t) = map_of t ++ map_of (rev es)"
proof (induction es arbitrary: t)
  case Nil
  then show ?case by simp
next
  case (Cons p es)
  obtain k v where p: "p = (k, v)" by (cases p)
  have "map_of (fold (\<lambda>(k, v). put_prop k v) (p # es) t) =
        map_of (put_prop k v t) ++ map_of (rev es)"
    by (simp add: p Cons.IH)
  also have "\<dots> = ((map_of t)(k \<mapsto> v)) ++ map_of (rev es)"
    by (simp only: map_of_put_prop)
  also have "\<dots> = map_of t ++ (map_of [(k, v)] ++ map_of (rev es))"
    by (rule ext) (simp add: map_add_def split: option.splits)
  also have "\<dots> = map_of t ++ map_of (rev (p # es))"
    by (simp only: p rev.simps map_of_append)
  finally show ?case .
qed

lemma map_of_spread: "map_of (spread t src) = map_of t ++ map_of (spread [] src)"
  by (simp add: spread_def map_of_fold_update)

lemma map_of_spread_Some:
  "map_of (spread [] src) k = Some v \<Longrightarrow> map_of (spread t src) k = Some v"
  by (simp add: map_of_spread [of t] map_add_def)

lemma map_of_spread_None:
  "map_of (spread [] src) k = None \<Longrightarrow> map_of (spread t src) k = map_of t k"
  by (simp add: map_of_spread [of t] map_add_def)

lemma distinct_fold_update:
  "distinct (map fst t) \<Longrightarrow> distinct (map fst (fold (\<lambda>(k, v). put_prop k v) es t))"
proof (induction es arbitrary: t)
  case Nil
  then show ?case by simp
next
  case (Cons p es)
  obtain k v where p: "p = (k, v)" by (cases p)
  have "distinct (map fst (put_prop k v t))"
    using Cons.prems by (rule distinct_put_prop)
  then show ?case
    using Cons.IH by (simp add: p)
qed

lemma distinct_spread: "distinct (map fst t) \<Longrightarrow> distinct (map fst (spread t src))"
  by (simp add: spread_def distinct_fold_update)

lemma key_once:
  "distinct (map fst xs) \<Longrightarrow> map_of xs k = Some v \<Longrightarrow>
   length (filter (\<lambda>p. fst p = k) xs) = 1"
proof (induction xs)
  case Nil
  then show ?case by simp
next
  case (Cons p xs)
  show ?case
  proof (cases "fst p = k")
    case True
    then have "k \<notin> fst ` set xs" using Cons.prems(1) by auto
    then have "filter (\<lambda>p. fst p = k) xs = []"
      by (auto simp: filter_empty_conv)
    then show ?thesis using True by simp
  next
    case False
    then have "map_of xs k = Some v" using Cons.prems(2) by (cases p) auto
    then show ?thesis using Cons False by simp
  qed
qed


lemma context_meta_record_Inr:
  assumes "context_meta_record ctx meta c = Inr r"
  shows "\<exists>us u. r = set_prop ''caller'' (JStr c) (spread (spread (spread [] us) u) meta)"
proof (cases "get_prop ctx ''userState''")
  case (Inl err)
  then show ?thesis using assms by (simp add: context_meta_record_def)
next
  case us: (Inr us)
  show ?thesis
  proof (cases "get_prop ctx ''user''")
    case (Inl err)
    then show ?thesis using assms us by (simp add: context_meta_record_def)
  next
    case (Inr u)
    then have "r = set_prop ''caller'' (JStr c) (spread (spread (spread [] us) u) meta)"
      using assms us by (simp add: context_meta_record_def)
    then show ?thesis by blast
  qed
qed

lemma context_meta_record_props:
  assumes "context_meta_record ctx meta c = Inr r"
  shows "map_of r ''caller'' = Some (JStr c) \<and>
         length (filter (\<lambda>p. fst p = ''caller'') r) = 1 \<and>
         (k \<noteq> ''caller'' \<and> map_of (spread [] meta) k = Some v \<longrightarrow> map_of r k = Some v)"
proof -
  obtain us u where r: "r = set_prop ''caller'' (JStr c) (spread (spread (spread [] us) u) meta)"
    using context_meta_record_Inr [OF assms] by blast
  have "distinct (map fst (spread (spread (spread [] us) u) meta))"
    by (intro distinct_spread) simp
  then have d: "distinct (map fst r)"
    unfolding r by (rule distinct_set_prop)
  have c: "map_of r ''caller'' = Some (JStr c)"
    by (simp add: r map_of_set_prop)
  have m: "k \<noteq> ''caller'' \<and> map_of (spread [] meta) k = Some v \<longrightarrow> map_of r k = Some v"
  proof
    assume a: "k \<noteq> ''caller'' \<and> map_of (spread [] meta) k = Some v"
    then have "map_of (spread (spread (spread [] us) u) meta) k = Some v"
      by (simp add: map_of_spread_Some [of meta k v])
    then show "map_of r k = Some v"
      using a by (simp add: r map_of_set_prop)
  qed
  have "length (filter (\<lambda>p. fst p = ''caller'') r) = 1"
    using d c by (rule key_once)
  with c m show ?thesis by blast
qed


lemma logger_log_Inr:
  assumes "logger_log e w level message r = (Inr (), w')"
  shows "emitted w' = emitted w @ [(level, message, r)]"
proof (cases "transport_fault e")
  case None
  then show ?thesis using assms by (auto simp: logger_log_def)
next
  case (Some err)
  then show ?thesis using assms by (simp add: logger_log_def)
qed

lemma log_at_record:
  assumes "log_at level e w capture message ctx meta = (Inr (), w')"
  shows "\<exists>r. emitted w' = emitted w @ [(JStr level, message, r)] \<and>
             context_meta_record (default_obj ctx) (default_obj meta)
               (caller_string (fst (getCallerInfo e w capture 2))) = Inr r"
proof -
  obtain c where c: "getCallerInfo e w capture 2 = (c, w)"
    using getCallerInfo_pair by blast
  show ?thesis
  proof (cases "context_meta_record (default_obj ctx) (default_obj meta) (caller_string c)")
    case (Inl err)
    then show ?thesis using assms by (simp add: log_at_def Let_def c)
  next
    case (Inr r)
    then have "logger_log e w (JStr level) message r = (Inr (), w')"
      using assms by (simp add: log_at_def Let_def c)
    then have "emitted w' = emitted w @ [(JStr level, message, r)]"
      by (rule logger_log_Inr)
    with Inr show ?thesis by (simp add: c)
  qed
qed

lemma logError_plain_record:
  assumes "\<not> instanceof_Error error"
    and "logError e context w capture error ctx meta = (Inr (), w')"
  shows "\<exists>r. emitted w' = emitted w @ [(JStr ''error'', JStr (to_string error), r)] \<and>
             context_meta_record (default_obj ctx) (default_obj meta)
               (caller_string (fst (getCallerInfo e w capture 2))) = Inr r"
proof -
  obtain c where c: "getCallerInfo e w capture 2 = (c, w)"
    using getCallerInfo_pair by blast
  let ?rec = "context_meta_record (default_obj ctx) (default_obj meta) (caller_string c)"
  have body: "logError e context w capture error ctx meta =
      (case toString_call error of
         Inl err \<Rightarrow> (Inl err, w)
       | Inr text \<Rightarrow>
           (case ?rec of
              Inl err \<Rightarrow> (Inl err, w)
            | Inr logData \<Rightarrow> logger_log e w (JStr ''error'') (JStr text) logData))"
    using assms(1) by (cases error) (simp_all add: logError_def Let_def c)
  show ?thesis
  proof (cases "toString_call error")
    case (Inl err)
    then show ?thesis using assms(2) body by simp
  next
    case tx: (Inr s)
    then have t: "s = to_string error"
      by (cases error) simp_all
    show ?thesis
    proof (cases ?rec)
      case (Inl err)
      then show ?thesis using assms(2) body tx by simp
    next
      case (Inr r)
      then have "logger_log e w (JStr ''error'') (JStr s) r = (Inr (), w')"
        using assms(2) body tx by simp
      then have "emitted w' = emitted w @ [(JStr ''error'', JStr s, r)]"
        by (rule logger_log_Inr)
      with Inr t show ?thesis by (simp add: c)
    qed
  qed
qed


lemma logUserAction_record:
  assumes "logUserAction e w capture action ctx details = (Inr (), w')"
    and "get_prop (default_obj ctx) ''userState'' = Inr us"
    and "get_prop (default_obj ctx) ''user'' = Inr u"
  shows "\<exists>userId username.
           emitted w' = emitted w @ [(JStr ''info'', action,
             set_prop ''caller'' (JStr (caller_string (fst (getCallerInfo e w capture 2))))
               (spread (spread (spread
                  (set_prop ''username'' username (set_prop ''userId'' userId []))
                  (default_obj details)) us) u))]"
proof -
  obtain c where c: "getCallerInfo e w capture 2 = (c, w)"
    using getCallerInfo_pair by blast
  show ?thesis
  proof (cases "from_field (default_obj ctx) ''id''")
    case (Inl err)
    then show ?thesis using assms(1) by (simp add: logUserAction_def Let_def c)
  next
    case uid: (Inr userId)
    show ?thesis
    proof (cases "from_field (default_obj ctx) ''username''")
      case (Inl err)
      then show ?thesis using assms(1) uid by (simp add: logUserAction_def Let_def c)
    next
      case (Inr username)
      then have "logger_log e w (JStr ''info'') action
          (set_prop ''caller'' (JStr (caller_string c))
            (spread (spread (spread
               (set_prop ''username'' username (set_prop ''userId'' userId []))
               (default_obj details)) us) u)) = (Inr (), w')"
        using assms uid by (simp add: logUserAction_def Let_def c)
      then have "emitted w' = emitted w @ [(JStr ''info'', action,
          set_prop ''caller'' (JStr (caller_string c))
            (spread (spread (spread
               (set_prop ''username'' username (set_prop ''userId'' userId []))
               (default_obj details)) us) u))]"
        by (rule logger_log_Inr)
      then show ?thesis by (simp add: c) blast
    qed
  qed
qed

lemma map_of_spread_spread:
  "map_of (spread (spread t a) b) = map_of t ++ map_of (spread (spread [] a) b)"
proof -
  have "map_of (spread (spread t a) b) = (map_of t ++ map_of (spread [] a)) ++ map_of (spread [] b)"
    by (simp only: map_of_spread [of "spread t a" b] map_of_spread [of t a])
  also have "\<dots> = map_of t ++ (map_of (spread [] a) ++ map_of (spread [] b))"
    by (simp only: map_add_assoc)
  also have "\<dots> = map_of t ++ map_of (spread (spread [] a) b)"
    by (simp only: map_of_spread [of "spread [] a" b])
  finally show ?thesis .
qed

lemma user_action_record_props:
  fixes base :: obj
  assumes "distinct (map fst base)"
    and "r = set_prop ''caller'' (JStr c) (spread (spread (spread base details) us) u)"
  shows "map_of r ''caller'' = Some (JStr c) \<and>
         length (filter (\<lambda>p. fst p = ''caller'') r) = 1 \<and>
         (k \<noteq> ''caller'' \<and> map_of (spread (spread [] us) u) k = Some v \<longrightarrow>
            map_of r k = Some v) \<and>
         (k \<noteq> ''caller'' \<and> map_of (spread (spread [] us) u) k = None \<and>
          map_of (spread [] details) k = Some v \<longrightarrow> map_of r k = Some v)"
proof -
  have "distinct (map fst (spread (spread (spread base details) us) u))"
    using assms(1) by (intro distinct_spread)
  then have d: "distinct (map fst r)"
    unfolding assms(2) by (rule distinct_set_prop)
  have c: "map_of r ''caller'' = Some (JStr c)"
    by (simp add: assms(2) map_of_set_prop)
  have once: "length (filter (\<lambda>p. fst p = ''caller'') r) = 1"
    using d c by (rule key_once)
  have m: "map_of (spread (spread (spread base details) us) u) =
           map_of (spread base details) ++ map_of (spread (spread [] us) u)"
    by (rule map_of_spread_spread)
  have amb: "k \<noteq> ''caller'' \<and> map_of (spread (spread [] us) u) k = Some v \<longrightarrow>
            map_of r k = Some v"
    by (simp add: assms(2) map_of_set_prop m map_add_def)
  have det: "k \<noteq> ''caller'' \<and> map_of (spread (spread [] us) u) k = None \<and>
          map_of (spread [] details) k = Some v \<longrightarrow> map_of r k = Some v"
    by (simp add: assms(2) map_of_set_prop m map_add_def map_of_spread [of base details])
  from c once amb det show ?thesis by blast
qed

text \<open>
  C2 as stated fails for \<^verbatim>\<open>logUserAction\<close>: its object literal spreads
  \<^verbatim>\<open>details\<close> before \<^verbatim>\<open>ctx.userState\<close> and \<^verbatim>\<open>ctx.user\<close>, so on a collision the
  ambient value is the one in the record. With \<^verbatim>\<open>step: 'explicit'\<close> in the details
  and \<^verbatim>\<open>step: 'ambient'\<close> in the user state, the record has \<^verbatim>\<open>step: 'ambient'\<close>.
\<close>

theorem logUserAction_counterexample:
  "logUserAction project w0 (Inr handler_stack) (JStr ''open_menu'') colliding_ctx colliding_details =
     (Inr (), w0\<lparr>emitted :=
        [(JStr ''info'', JStr ''open_menu'',
          [(''userId'', JNum 7), (''username'', JStr ''ann''), (''step'', JStr ''ambient''),
           (''caller'', JStr ''app/handlers/language.js:62'')])]\<rparr>) \<and>
   map_of (own_props colliding_details) ''step'' = Some (JStr ''explicit'')"
  by code_simp

text \<open>
  C2, amended. For \<^verbatim>\<open>logInfo\<close>, \<^verbatim>\<open>logWarn\<close>, \<^verbatim>\<open>logDebug\<close> and for
  \<^verbatim>\<open>logError\<close> on a first argument that is not an \<^verbatim>\<open>Error\<close>, whenever the call
  returns: one record is handed to the logger; every property of the explicit
  \<^verbatim>\<open>meta\<close> other than \<^verbatim>\<open>caller\<close> is in the record with the value \<^verbatim>\<open>meta\<close>
  gives it, whatever the ambient context holds under that key; the \<^verbatim>\<open>caller\<close>
  field is the computed caller, whatever either source holds under that key, and
  occurs exactly once. For \<^verbatim>\<open>logUserAction\<close> the computed caller wins and occurs
  once in the same way, but between the other two sources the order is the reverse:
  every property of the ambient fields (\<^verbatim>\<open>ctx.userState\<close> overridden by
  \<^verbatim>\<open>ctx.user\<close>) is in the record, and a property of \<^verbatim>\<open>details\<close> is in the
  record when the ambient fields do not have its key. (Nothing is said here about the
  \<^verbatim>\<open>Error\<close> branch of \<^verbatim>\<open>logError\<close>.)
\<close>

theorem merge_precedence:
  "((op, level) \<in> {(logInfo, ''info''), (logWarn, ''warn''), (logDebug, ''debug'')} \<and>
    op e w capture message ctx meta = (Inr (), w') \<longrightarrow>
      (\<exists>r. emitted w' = emitted w @ [(JStr level, message, r)] \<and>
           map_of r ''caller'' = Some (JStr (caller_string (fst (getCallerInfo e w capture 2)))) \<and>
           length (filter (\<lambda>p. fst p = ''caller'') r) = 1 \<and>
           (k \<noteq> ''caller'' \<and> map_of (spread [] (default_obj meta)) k = Some v \<longrightarrow>
              map_of r k = Some v))) \<and>
   (\<not> instanceof_Error error \<and>
    logError e context w capture error ctx meta = (Inr (), w') \<longrightarrow>
      (\<exists>r. emitted w' = emitted w @ [(JStr ''error'', JStr (to_string error), r)] \<and>
           map_of r ''caller'' = Some (JStr (caller_string (fst (getCallerInfo e w capture 2)))) \<and>
           length (filter (\<lambda>p. fst p = ''caller'') r) = 1 \<and>
           (k \<noteq> ''caller'' \<and> map_of (spread [] (default_obj meta)) k = Some v \<longrightarrow>
              map_of r k = Some v))) \<and>
   (logUserAction e w capture action ctx details = (Inr (), w') \<and>
    get_prop (default_obj ctx) ''userState'' = Inr us \<and>
    get_prop (default_obj ctx) ''user'' = Inr u \<longrightarrow>
      (\<exists>r. emitted w' = emitted w @ [(JStr ''info'', action, r)] \<and>
           map_of r ''caller'' = Some (JStr (caller_string (fst (getCallerInfo e w capture 2)))) \<and>
           length (filter (\<lambda>p. fst p = ''caller'') r) = 1 \<and>
           (k \<noteq> ''caller'' \<and> map_of (spread (spread [] us) u) k = Some v \<longrightarrow>
              map_of r k = Some v) \<and>
           (k \<noteq> ''caller'' \<and> map_of (spread (spread [] us) u) k = None \<and>
            map_of (spread [] (default_obj details)) k = Some v \<longrightarrow> map_of r k = Some v)))"
proof (intro conjI impI)
  assume a: "(op, level) \<in> {(logInfo, ''info''), (logWarn, ''warn''), (logDebug, ''debug'')} \<and>
    op e w capture message ctx meta = (Inr (), w')"
  then have "log_at level e w capture message ctx meta = (Inr (), w')"
    by (auto simp: logInfo_def logWarn_def logDebug_def)
  then obtain r where r: "emitted w' = emitted w @ [(JStr level, message, r)]"
    and cm: "context_meta_record (default_obj ctx) (default_obj meta)
               (caller_string (fst (getCallerInfo e w capture 2))) = Inr r"
    using log_at_record by blast
  from r context_meta_record_props [OF cm, of k v]
  show "\<exists>r. emitted w' = emitted w @ [(JStr level, message, r)] \<and>
           map_of r ''caller'' = Some (JStr (caller_string (fst (getCallerInfo e w capture 2)))) \<and>
           length (filter (\<lambda>p. fst p = ''caller'') r) = 1 \<and>
           (k \<noteq> ''caller'' \<and> map_of (spread [] (default_obj meta)) k = Some v \<longrightarrow>
              map_of r k = Some v)"
    by blast
next
  assume a: "\<not> instanceof_Error error \<and>
    logError e context w capture error ctx meta = (Inr (), w')"
  then obtain r where r: "emitted w' = emitted w @ [(JStr ''error'', JStr (to_string error), r)]"
    and cm: "context_meta_record (default_obj ctx) (default_obj meta)
               (caller_string (fst (getCallerInfo e w capture 2))) = Inr r"
    using logError_plain_record by blast
  from r context_meta_record_props [OF cm, of k v]
  show "\<exists>r. emitted w' = emitted w @ [(JStr ''error'', JStr (to_string error), r)] \<and>
           map_of r ''caller'' = Some (JStr (caller_string (fst (getCallerInfo e w capture 2)))) \<and>
           length (filter (\<lambda>p. fst p = ''caller'') r) = 1 \<and>
           (k \<noteq> ''caller'' \<and> map_of (spread [] (default_obj meta)) k = Some v \<longrightarrow>
              map_of r k = Some v)"
    by blast
next
  assume a: "logUserAction e w capture action ctx details = (Inr (), w') \<and>
    get_prop (default_obj ctx) ''userState'' = Inr us \<and>
    get_prop (default_obj ctx) ''user'' = Inr u"
  then obtain userId username where
    r: "emitted w' = emitted w @ [(JStr ''info'', action,
             set_prop ''caller'' (JStr (caller_string (fst (getCallerInfo e w capture 2))))
               (spread (spread (spread
                  (set_prop ''username'' username (set_prop ''userId'' userId []))
                  (default_obj details)) us) u))]"
    using logUserAction_record by blast
  have d: "distinct (map fst (set_prop ''username'' username (set_prop ''userId'' userId [])))"
    by (intro distinct_set_prop) simp
  from r user_action_record_props [OF d refl, where k = k and v = v and us = us and u = u
      and details = "default_obj details"]
  show "\<exists>r. emitted w' = emitted w @ [(JStr ''info'', action, r)] \<and>
           map_of r ''caller'' = Some (JStr (caller_string (fst (getCallerInfo e w capture 2)))) \<and>
           length (filter (\<lambda>p. fst p = ''caller'') r) = 1 \<and>
           (k \<noteq> ''caller'' \<and> map_of (spread (spread [] us) u) k = Some v \<longrightarrow>
              map_of r k = Some v) \<and>
           (k \<noteq> ''caller'' \<and> map_of (spread (spread [] us) u) k = None \<and>
            map_of (spread [] (default_obj details)) k = Some v \<longrightarrow> map_of r k = Some v)"
    by blast
qed

theorem merge_precedence_witness:
  "fst (logInfo project w0 (Inr handler_stack) (JStr ''open_menu'') colliding_ctx colliding_details) =
     Inr () \<and>
   (\<exists>r. emitted (snd (logInfo project w0 (Inr handler_stack) (JStr ''open_menu'')
                        colliding_ctx colliding_details)) =
          emitted w0 @ [(JStr ''info'', JStr ''open_menu'', r)] \<and>
        map_of r ''step'' = Some (JStr ''explicit'') \<and>
        map_of r ''caller'' = Some (JStr ''app/handlers/language.js:62'') \<and>
        length (filter (\<lambda>p. fst p = ''caller'') r) = 1) \<and>
   fst (logUserAction project w0 (Inr handler_stack) (JStr ''open_menu'') colliding_ctx
          colliding_details) = Inr () \<and>
   (\<exists>r. emitted (snd (logUserAction project w0 (Inr handler_stack) (JStr ''open_menu'')
                        colliding_ctx colliding_details)) =
          emitted w0 @ [(JStr ''info'', JStr ''open_menu'', r)] \<and>
        map_of r ''step'' = Some (JStr ''ambient'') \<and>
        map_of r ''caller'' = Some (JStr ''app/handlers/language.js:62'') \<and>
        length (filter (\<lambda>p. fst p = ''caller'') r) = 1)"
proof -
  let ?res = "logInfo project w0 (Inr handler_stack) (JStr ''open_menu'')
                colliding_ctx colliding_details"
  let ?act = "logUserAction project w0 (Inr handler_stack) (JStr ''open_menu'')
                colliding_ctx colliding_details"
  let ?us = "JObj [(''step'', JStr ''ambient''), (''caller'', JStr ''forged'')]"
  have f: "fst ?res = Inr ()"
    by code_simp
  then have s: "?res = (Inr (), snd ?res)"
    by (simp add: prod_eq_iff)
  have m: "map_of (spread [] (default_obj colliding_details)) ''step'' = Some (JStr ''explicit'')"
    by code_simp
  have c: "caller_string (fst (getCallerInfo project w0 (Inr handler_stack) 2)) =
             ''app/handlers/language.js:62''"
    by code_simp
  have mem: "(logInfo, ''info'') \<in> {(logInfo, ''info''), (logWarn, ''warn''), (logDebug, ''debug'')}"
    by simp
  have info: "\<exists>r. emitted (snd ?res) = emitted w0 @ [(JStr ''info'', JStr ''open_menu'', r)] \<and>
           map_of r ''caller'' =
             Some (JStr (caller_string (fst (getCallerInfo project w0 (Inr handler_stack) 2)))) \<and>
           length (filter (\<lambda>p. fst p = ''caller'') r) = 1 \<and>
           (''step'' \<noteq> ''caller'' \<and>
            map_of (spread [] (default_obj colliding_details)) ''step'' = Some (JStr ''explicit'') \<longrightarrow>
              map_of r ''step'' = Some (JStr ''explicit''))"
    using merge_precedence [where op = logInfo and level = "''info''" and e = project and w = w0
        and capture = "Inr handler_stack" and message = "JStr ''open_menu''"
        and ctx = colliding_ctx and meta = colliding_details and w' = "snd ?res"
        and k = "''step''" and v = "JStr ''explicit''", THEN conjunct1] mem s
    by blast
  have fa: "fst ?act = Inr ()"
    by code_simp
  then have sa: "?act = (Inr (), snd ?act)"
    by (simp add: prod_eq_iff)
  have us: "get_prop (default_obj colliding_ctx) ''userState'' = Inr ?us"
    by code_simp
  have u: "get_prop (default_obj colliding_ctx) ''user'' = Inr JUndefined"
    by code_simp
  have ma: "map_of (spread (spread [] ?us) JUndefined) ''step'' = Some (JStr ''ambient'')"
    by code_simp
  have act: "\<exists>r. emitted (snd ?act) = emitted w0 @ [(JStr ''info'', JStr ''open_menu'', r)] \<and>
           map_of r ''caller'' =
             Some (JStr (caller_string (fst (getCallerInfo project w0 (Inr handler_stack) 2)))) \<and>
           length (filter (\<lambda>p. fst p = ''caller'') r) = 1 \<and>
           (''step'' \<noteq> ''caller'' \<and>
            map_of (spread (spread [] ?us) JUndefined) ''step'' = Some (JStr ''ambient'') \<longrightarrow>
              map_of r ''step'' = Some (JStr ''ambient''))"
    using merge_precedence [where e = project and w = w0
        and capture = "Inr handler_stack" and action = "JStr ''open_menu''"
        and ctx = colliding_ctx and details = colliding_details and w' = "snd ?act"
        and us = ?us and u = JUndefined
        and k = "''step''" and v = "JStr ''ambient''", THEN conjunct2, THEN conjunct2] sa us u
    by blast
  from info act show ?thesis
    using f fa m ma c by auto
qed

end
